theory Spec2Isabelle
  imports Main "HOL-Library.Word" "HOL-Library.Multiset"
begin

section \<open>GameModFHEPlatform: a shallow embedding of the contract\<close>

text \<open>
  The contract keeps its whole state in storage variables and mappings; every external
  function is a transaction that either runs to its end or reverts. The embedding follows
  that: the storage is one record, a Solidity mapping is a total function (an unset key
  reads as the zero value of its type), a function of the contract maps a storage to
  either an error or the new storage, and a revert anywhere inside a transaction leaves
  the storage (and the event log) as it was before the transaction.

  \<open>uint256\<close> is a 256-bit word. The contract is compiled with \<open>pragma solidity ^0.8.24\<close>,
  so \<open>+\<close> and \<open>++\<close> are checked: an overflow reverts with a panic instead of wrapping.
\<close>

subsection \<open>Value types\<close>

type_synonym uint256 = "256 word"
type_synonym bytes32 = "256 word"
type_synonym address = "160 word"
type_synonym bytes = "8 word list"

text \<open>
  \<open>euint32\<close> is the handle type of the FHE library (a user-defined value type; an unset
  storage slot of that type reads as the all-zero handle).
\<close>

type_synonym euint32 = "256 word"

subsection \<open>Errors and events\<close>

text \<open>
  The ten custom errors of the contract, in the order they are declared, followed by the
  other ways a transaction of this contract can revert: an arithmetic overflow panic, a
  revert or \<open>require\<close> with a reason string, a failing \<open>abi.decode\<close>, and a revert inside
  \<open>FHE.checkSignatures\<close>.
\<close>

datatype error =
    NotOwner
  | NotProvider
  | Paused
  | RateLimited
  | BatchClosed
  | BatchFull
  | InvalidBatch
  | StaleWrite
  | InvalidState
  | ReplayAttempt
  | Panic_overflow
  | Error_string string
  | Abi_decode_error
  | Invalid_signatures

text \<open>
  The events. The source declares an event \<open>Paused\<close> and an event \<open>BatchClosed\<close> beside the
  errors of the same names; the two events carry the suffix \<open>Event\<close> here.
\<close>

datatype event =
    ProviderAdded address
  | ProviderRemoved address
  | PausedEvent
  | Unpaused
  | CooldownUpdated uint256
  | BatchOpened uint256
  | BatchClosedEvent uint256
  | ModSubmission address uint256 bytes32
  | DecryptionRequested uint256 uint256 bytes32
  | DecryptionComplete uint256 uint256 uint256
  | BatchAggregateCommitted uint256 euint32

subsection \<open>Storage\<close>

record DecryptionContext =
  batchId :: uint256
  stateHash :: bytes32
  processed :: bool
  requester :: address

record Batch =
  isActive :: bool
  submissionCount :: uint256
  encryptedAggregate :: euint32

record state =
  owner :: address
  paused :: bool
  cooldownSeconds :: uint256
  currentBatchId :: uint256
  modelVersion :: uint256
  isProvider :: "address \<Rightarrow> bool"
  lastSubmissionAt :: "address \<Rightarrow> uint256"
  lastDecryptionRequestAt :: "address \<Rightarrow> uint256"
  decryptionContexts :: "uint256 \<Rightarrow> DecryptionContext"
  batches :: "uint256 \<Rightarrow> Batch"
  events :: "event list"

text \<open>The zero values that unset mapping entries read as.\<close>

definition default_DecryptionContext :: DecryptionContext where
  "default_DecryptionContext =
     \<lparr>batchId = 0, stateHash = 0, processed = False, requester = 0\<rparr>"

definition default_Batch :: Batch where
  "default_Batch = \<lparr>isActive = False, submissionCount = 0, encryptedAggregate = 0\<rparr>"

text \<open>The storage of a contract that has not run its constructor yet, with an empty log.\<close>

definition zero_state :: state where
  "zero_state =
     \<lparr>owner = 0, paused = False, cooldownSeconds = 0, currentBatchId = 0, modelVersion = 0,
      isProvider = (\<lambda>_. False), lastSubmissionAt = (\<lambda>_. 0),
      lastDecryptionRequestAt = (\<lambda>_. 0),
      decryptionContexts = (\<lambda>_. default_DecryptionContext),
      batches = (\<lambda>_. default_Batch), events = []\<rparr>"

subsection \<open>The external collaborators\<close>

text \<open>
  The FHE library, the decryption oracle behind it and \<open>keccak256\<close> are not part of the
  repository. The contract's functions take them as a parameter: \<open>this\<close> is
  \<open>address(this)\<close>; \<open>FHE_asEuint32\<close>, \<open>FHE_add\<close>, \<open>FHE_isInitialized\<close> and \<open>FHE_toBytes32\<close>
  are the library calls of the same names, taken as functions of their arguments that
  return; \<open>FHE_checkSignatures\<close> tells whether \<open>FHE.checkSignatures\<close> returns (\<open>True\<close>) or
  reverts; \<open>keccak256_abi_encode cts a\<close> is \<open>keccak256(abi.encode(cts, a))\<close>. The request id
  that \<open>FHE.requestDecryption\<close> returns is an argument of \<open>requestBatchDecryption\<close>: the
  contract stores the context under whatever id the oracle hands out.
\<close>

record env =
  this :: address
  FHE_asEuint32 :: "32 word \<Rightarrow> euint32"
  FHE_add :: "euint32 \<Rightarrow> euint32 \<Rightarrow> euint32"
  FHE_isInitialized :: "euint32 \<Rightarrow> bool"
  FHE_toBytes32 :: "euint32 \<Rightarrow> bytes32"
  FHE_checkSignatures :: "uint256 \<Rightarrow> bytes \<Rightarrow> bytes \<Rightarrow> bool"
  keccak256_abi_encode :: "bytes32 list \<Rightarrow> address \<Rightarrow> bytes32"

subsection \<open>Reverting computations and checked arithmetic\<close>

text \<open>
  A computation either reverts with an error or returns; \<open>bind\<close> runs the next step on what
  the first returned and passes a revert on. \<open>checked_add\<close> is \<open>+\<close> on \<open>uint256\<close> as the
  compiler emits it: the sum is computed modulo \<open>2^256\<close>, and a sum below its first operand
  has wrapped, which panics. \<open>emit\<close> appends an event to the log.
\<close>

definition bind :: "error + 'a \<Rightarrow> ('a \<Rightarrow> error + 'b) \<Rightarrow> error + 'b" where
  "bind m f = (case m of Inl e \<Rightarrow> Inl e | Inr x \<Rightarrow> f x)"

definition checked_add :: "uint256 \<Rightarrow> uint256 \<Rightarrow> error + uint256" where
  "checked_add a b = (if a + b < a then Inl Panic_overflow else Inr (a + b))"

definition emit :: "event \<Rightarrow> state \<Rightarrow> state" where
  "emit e s = s\<lparr>events := events s @ [e]\<rparr>"

subsection \<open>Modifiers\<close>

definition onlyOwner :: "address \<Rightarrow> state \<Rightarrow> error + state" where
  "onlyOwner sender s = (if sender \<noteq> owner s then Inl NotOwner else Inr s)"

definition onlyProvider :: "address \<Rightarrow> state \<Rightarrow> error + state" where
  "onlyProvider sender s = (if \<not> isProvider s sender then Inl NotProvider else Inr s)"

definition whenNotPaused :: "state \<Rightarrow> error + state" where
  "whenNotPaused s = (if paused s then Inl Paused else Inr s)"

text \<open>
  \<open>rateLimited\<close> receives the mapping it works on as a storage reference; the two
  references the contract passes are the two constructors of \<open>lastAction\<close>. Its third
  argument, a label that the modifier never reads, is left out.
\<close>

datatype lastAction = LastSubmissionAt | LastDecryptionRequestAt

fun lastAction_get :: "lastAction \<Rightarrow> state \<Rightarrow> address \<Rightarrow> uint256" where
  "lastAction_get LastSubmissionAt s = lastSubmissionAt s"
| "lastAction_get LastDecryptionRequestAt s = lastDecryptionRequestAt s"

fun lastAction_set :: "lastAction \<Rightarrow> address \<Rightarrow> uint256 \<Rightarrow> state \<Rightarrow> state" where
  "lastAction_set LastSubmissionAt a t s =
     s\<lparr>lastSubmissionAt := (lastSubmissionAt s)(a := t)\<rparr>"
| "lastAction_set LastDecryptionRequestAt a t s =
     s\<lparr>lastDecryptionRequestAt := (lastDecryptionRequestAt s)(a := t)\<rparr>"

definition rateLimited :: "address \<Rightarrow> lastAction \<Rightarrow> uint256 \<Rightarrow> state \<Rightarrow> error + state" where
  "rateLimited caller la now s =
     bind (checked_add (lastAction_get la s caller) (cooldownSeconds s)) (\<lambda>limit.
       if now < limit then Inl RateLimited
       else Inr (lastAction_set la caller now s))"

definition batchActive :: "uint256 \<Rightarrow> state \<Rightarrow> error + state" where
  "batchActive bid s = (if \<not> isActive (batches s bid) then Inl BatchClosed else Inr s)"

subsection \<open>Batch management\<close>

text \<open>\<open>_openBatch\<close> of the source.\<close>

definition internal_openBatch :: "env \<Rightarrow> uint256 \<Rightarrow> state \<Rightarrow> error + state" where
  "internal_openBatch E bid s =
     (if bid \<noteq> currentBatchId s then Inl (Error_string ''Invalid batch ID'')
      else Inr (emit (BatchOpened bid)
             (s\<lparr>batches := (batches s)
                   (bid := \<lparr>isActive = True, submissionCount = 0,
                            encryptedAggregate = FHE_asEuint32 E 0\<rparr>)\<rparr>)))"

definition constructor :: "env \<Rightarrow> address \<Rightarrow> error + state" where
  "constructor E sender =
     (let s1 = zero_state\<lparr>owner := sender\<rparr>;
          s2 = s1\<lparr>isProvider := (isProvider s1)(owner s1 := True)\<rparr>;
          s3 = s2\<lparr>cooldownSeconds := 30\<rparr>;
          s4 = s3\<lparr>modelVersion := 1\<rparr>;
          s5 = s4\<lparr>currentBatchId := 1\<rparr>
      in internal_openBatch E (currentBatchId s5) s5)"

definition addProvider :: "address \<Rightarrow> address \<Rightarrow> state \<Rightarrow> error + state" where
  "addProvider sender provider s =
     bind (onlyOwner sender s) (\<lambda>s.
       Inr (emit (ProviderAdded provider) (s\<lparr>isProvider := (isProvider s)(provider := True)\<rparr>)))"

definition removeProvider :: "address \<Rightarrow> address \<Rightarrow> state \<Rightarrow> error + state" where
  "removeProvider sender provider s =
     bind (onlyOwner sender s) (\<lambda>s.
       Inr (emit (ProviderRemoved provider)
             (s\<lparr>isProvider := (isProvider s)(provider := False)\<rparr>)))"

definition pause :: "address \<Rightarrow> state \<Rightarrow> error + state" where
  "pause sender s =
     bind (onlyOwner sender s) (\<lambda>s. Inr (emit PausedEvent (s\<lparr>paused := True\<rparr>)))"

definition unpause :: "address \<Rightarrow> state \<Rightarrow> error + state" where
  "unpause sender s =
     bind (onlyOwner sender s) (\<lambda>s. Inr (emit Unpaused (s\<lparr>paused := False\<rparr>)))"

definition setCooldown :: "address \<Rightarrow> uint256 \<Rightarrow> state \<Rightarrow> error + state" where
  "setCooldown sender newCooldown s =
     bind (onlyOwner sender s) (\<lambda>s.
       Inr (emit (CooldownUpdated newCooldown) (s\<lparr>cooldownSeconds := newCooldown\<rparr>)))"

definition openBatch :: "env \<Rightarrow> address \<Rightarrow> state \<Rightarrow> error + state" where
  "openBatch E sender s =
     bind (onlyOwner sender s) (\<lambda>s.
     bind (checked_add (currentBatchId s) 1) (\<lambda>c.
       let s1 = s\<lparr>currentBatchId := c\<rparr>
       in internal_openBatch E (currentBatchId s1) s1))"

definition closeBatch :: "address \<Rightarrow> uint256 \<Rightarrow> state \<Rightarrow> error + state" where
  "closeBatch sender bid s =
     bind (onlyOwner sender s) (\<lambda>s.
     bind (batchActive bid s) (\<lambda>s.
       Inr (emit (BatchClosedEvent bid)
             (s\<lparr>batches := (batches s)(bid := (batches s bid)\<lparr>isActive := False\<rparr>)\<rparr>))))"

subsection \<open>Internal helpers\<close>

text \<open>\<open>_hashCiphertexts\<close>, \<open>_initIfNeeded\<close> and \<open>_requireInitialized\<close> of the source.\<close>

definition hashCiphertexts :: "env \<Rightarrow> bytes32 list \<Rightarrow> bytes32" where
  "hashCiphertexts E cts = keccak256_abi_encode E cts (this E)"

definition initIfNeeded :: "env \<Rightarrow> euint32 \<Rightarrow> euint32" where
  "initIfNeeded E x = (if \<not> FHE_isInitialized E x then FHE_asEuint32 E 0 else x)"

definition requireInitialized :: "env \<Rightarrow> euint32 \<Rightarrow> string \<Rightarrow> error + unit" where
  "requireInitialized E x tag =
     (if \<not> FHE_isInitialized E x then Inl (Error_string (''Uninitialized: '' @ tag))
      else Inr ())"

text \<open>
  \<open>abi.decode(cleartexts, (uint256))\<close>: reverts on fewer than 32 bytes, and reads the
  first 32 bytes as a big-endian number otherwise.
\<close>

definition abi_decode_uint256 :: "bytes \<Rightarrow> error + uint256" where
  "abi_decode_uint256 bs =
     (if length bs < 32 then Inl Abi_decode_error
      else Inr (word_of_nat (foldl (\<lambda>acc b. acc * 256 + unat b) 0 (take 32 bs))))"

subsection \<open>Submission\<close>

text \<open>
  The body of \<open>submitMod\<close>, after its modifiers. The calls \<open>closeBatch(batchId)\<close> and
  \<open>openBatch()\<close> at its end are calls of the contract's own functions, written without
  \<open>this\<close>: they run the modifiers of these functions, \<open>onlyOwner\<close> first, with the
  \<open>msg.sender\<close> of the transaction.
\<close>

definition submitMod_body ::
  "env \<Rightarrow> address \<Rightarrow> uint256 \<Rightarrow> euint32 \<Rightarrow> state \<Rightarrow> error + state" where
  "submitMod_body E sender bid encryptedScore s =
     bind (requireInitialized E encryptedScore ''encryptedScore'') (\<lambda>_.
       let agg = FHE_add E (encryptedAggregate (batches s bid)) encryptedScore;
           s1 = s\<lparr>batches := (batches s)(bid := (batches s bid)\<lparr>encryptedAggregate := agg\<rparr>)\<rparr>
       in
     bind (checked_add (submissionCount (batches s1 bid)) 1) (\<lambda>n.
       let s2 = s1\<lparr>batches := (batches s1)(bid := (batches s1 bid)\<lparr>submissionCount := n\<rparr>)\<rparr>;
           cId = FHE_toBytes32 E encryptedScore;
           s3 = emit (ModSubmission sender bid cId) s2
       in
         if 10 \<le> submissionCount (batches s3 bid) then
           bind (closeBatch sender bid
                  (emit (BatchAggregateCommitted bid (encryptedAggregate (batches s3 bid))) s3))
             (\<lambda>s4. openBatch E sender s4)
         else Inr s3))"

definition submitMod ::
  "env \<Rightarrow> address \<Rightarrow> uint256 \<Rightarrow> uint256 \<Rightarrow> euint32 \<Rightarrow> state \<Rightarrow> error + state" where
  "submitMod E sender now bid encryptedScore s =
     bind (onlyProvider sender s) (\<lambda>s.
     bind (whenNotPaused s) (\<lambda>s.
     bind (batchActive bid s) (\<lambda>s.
     bind (rateLimited sender LastSubmissionAt now s) (\<lambda>s.
       submitMod_body E sender bid encryptedScore s))))"

subsection \<open>Decryption request and callback\<close>

text \<open>\<open>requestId\<close> is the value \<open>FHE.requestDecryption\<close> returned to this call.\<close>

definition requestBatchDecryption ::
  "env \<Rightarrow> address \<Rightarrow> uint256 \<Rightarrow> uint256 \<Rightarrow> uint256 \<Rightarrow> state \<Rightarrow> error + state" where
  "requestBatchDecryption E sender now bid requestId s =
     bind (onlyProvider sender s) (\<lambda>s.
     bind (whenNotPaused s) (\<lambda>s.
     bind (rateLimited sender LastDecryptionRequestAt now s) (\<lambda>s.
       if \<not> isActive (batches s bid) then Inl BatchClosed
       else
         let cts = [FHE_toBytes32 E (encryptedAggregate (batches s bid))];
             h = hashCiphertexts E cts;
             s1 = s\<lparr>decryptionContexts := (decryptionContexts s)
                      (requestId := \<lparr>batchId = bid, stateHash = h, processed = False,
                                     requester = sender\<rparr>)\<rparr>
         in Inr (emit (DecryptionRequested requestId bid h) s1))))"

definition onBatchDecryptionComplete ::
  "env \<Rightarrow> uint256 \<Rightarrow> bytes \<Rightarrow> bytes \<Rightarrow> state \<Rightarrow> error + state" where
  "onBatchDecryptionComplete E requestId cleartexts proof s =
     (let ctx = decryptionContexts s requestId in
      if processed ctx then Inl ReplayAttempt
      else
        let cts = [FHE_toBytes32 E (encryptedAggregate (batches s (batchId ctx)))];
            currentStateHash = hashCiphertexts E cts
        in
          if currentStateHash \<noteq> stateHash ctx then Inl InvalidState
          else if \<not> FHE_checkSignatures E requestId cleartexts proof then Inl Invalid_signatures
          else
            bind (abi_decode_uint256 cleartexts) (\<lambda>aggregateScore.
              let s1 = s\<lparr>decryptionContexts := (decryptionContexts s)
                         (requestId := ctx\<lparr>processed := True\<rparr>)\<rparr>
              in Inr (emit (DecryptionComplete requestId (batchId ctx) aggregateScore) s1)))"

subsection \<open>Transactions\<close>

text \<open>
  A transaction is a call of one external function by \<open>msg.sender\<close> at \<open>block.timestamp\<close>.
  A transaction that reverts leaves the storage and the log as they were.
\<close>

datatype call =
    AddProvider address
  | RemoveProvider address
  | Pause
  | Unpause
  | SetCooldown uint256
  | OpenBatch
  | CloseBatch uint256
  | SubmitMod uint256 euint32
  | RequestBatchDecryption uint256 uint256
  | OnBatchDecryptionComplete uint256 bytes bytes

record tx =
  msg_sender :: address
  block_timestamp :: uint256
  tx_call :: call

fun exec :: "env \<Rightarrow> address \<Rightarrow> uint256 \<Rightarrow> call \<Rightarrow> state \<Rightarrow> error + state" where
  "exec E sender now (AddProvider p) s = addProvider sender p s"
| "exec E sender now (RemoveProvider p) s = removeProvider sender p s"
| "exec E sender now Pause s = pause sender s"
| "exec E sender now Unpause s = unpause sender s"
| "exec E sender now (SetCooldown c) s = setCooldown sender c s"
| "exec E sender now OpenBatch s = openBatch E sender s"
| "exec E sender now (CloseBatch bid) s = closeBatch sender bid s"
| "exec E sender now (SubmitMod bid x) s = submitMod E sender now bid x s"
| "exec E sender now (RequestBatchDecryption bid rid) s =
     requestBatchDecryption E sender now bid rid s"
| "exec E sender now (OnBatchDecryptionComplete rid ct pf) s =
     onBatchDecryptionComplete E rid ct pf s"

definition transact :: "env \<Rightarrow> state \<Rightarrow> tx \<Rightarrow> state" where
  "transact E s t =
     (case exec E (msg_sender t) (block_timestamp t) (tx_call t) s of
        Inl e \<Rightarrow> s
      | Inr s' \<Rightarrow> s')"

definition run :: "env \<Rightarrow> state \<Rightarrow> tx list \<Rightarrow> state" where
  "run E s ts = foldl (transact E) s ts"

text \<open>The states a deployed contract can be in.\<close>

inductive reachable :: "env \<Rightarrow> state \<Rightarrow> bool" for E :: env where
  deployed: "constructor E deployer = Inr s \<Longrightarrow> reachable E s"
| transacted: "reachable E s \<Longrightarrow> reachable E (transact E s t)"

subsection \<open>Net effects\<close>

text \<open>
  The storage the constructor leaves, the storage after a submission that was accepted
  without closing its batch, and the further effect of the three statements at the end of
  \<open>submitMod\<close> that run when the batch is full. The lemmas of the next section show that
  the contract's functions compute exactly these.
\<close>

definition initial :: "env \<Rightarrow> address \<Rightarrow> state" where
  "initial E deployer =
     \<lparr>owner = deployer, paused = False, cooldownSeconds = 30, currentBatchId = 1,
      modelVersion = 1, isProvider = (\<lambda>_. False)(deployer := True),
      lastSubmissionAt = (\<lambda>_. 0), lastDecryptionRequestAt = (\<lambda>_. 0),
      decryptionContexts = (\<lambda>_. default_DecryptionContext),
      batches = (\<lambda>_. default_Batch)
        (1 := \<lparr>isActive = True, submissionCount = 0, encryptedAggregate = FHE_asEuint32 E 0\<rparr>),
      events = [BatchOpened 1]\<rparr>"

definition accepted :: "env \<Rightarrow> address \<Rightarrow> uint256 \<Rightarrow> uint256 \<Rightarrow> euint32 \<Rightarrow> state \<Rightarrow> state" where
  "accepted E sender now bid x s =
     s\<lparr>lastSubmissionAt := (lastSubmissionAt s)(sender := now),
       batches := (batches s)(bid := (batches s bid)
         \<lparr>encryptedAggregate := FHE_add E (encryptedAggregate (batches s bid)) x,
          submissionCount := submissionCount (batches s bid) + 1\<rparr>),
       events := events s @ [ModSubmission sender bid (FHE_toBytes32 E x)]\<rparr>"

definition rolled_over :: "env \<Rightarrow> uint256 \<Rightarrow> state \<Rightarrow> state" where
  "rolled_over E bid s =
     s\<lparr>currentBatchId := currentBatchId s + 1,
       batches := (batches s)
         (bid := (batches s bid)\<lparr>isActive := False\<rparr>,
          currentBatchId s + 1 :=
            \<lparr>isActive = True, submissionCount = 0, encryptedAggregate = FHE_asEuint32 E 0\<rparr>),
       events := events s @
         [BatchAggregateCommitted bid (encryptedAggregate (batches s bid)),
          BatchClosedEvent bid, BatchOpened (currentBatchId s + 1)]\<rparr>"

text \<open>
  The invariant of the batch table: \<open>currentBatchId\<close> is at least 1, the entries outside
  \<open>1..currentBatchId\<close> have never been written, an active batch holds fewer than ten
  submissions, and no batch holds more than ten.
\<close>

definition batch_inv :: "state \<Rightarrow> bool" where
  "batch_inv s \<longleftrightarrow>
     1 \<le> currentBatchId s \<and>
     (\<forall>b. b = 0 \<or> currentBatchId s < b \<longrightarrow> batches s b = default_Batch) \<and>
     (\<forall>b. isActive (batches s b) \<longrightarrow> submissionCount (batches s b) < 10) \<and>
     (\<forall>b. submissionCount (batches s b) \<le> 10)"

text \<open>
  The calls that concern a request id: a decryption request that the oracle answers with
  this id, and a callback for this id.
\<close>

fun requests :: "uint256 \<Rightarrow> call \<Rightarrow> bool" where
  "requests rid (RequestBatchDecryption b r) = (r = rid)"
| "requests rid _ = False"

fun completes :: "uint256 \<Rightarrow> call \<Rightarrow> bool" where
  "completes rid (OnBatchDecryptionComplete r ct pf) = (r = rid)"
| "completes rid _ = False"

subsection \<open>Example collaborators and scenarios\<close>

text \<open>
  An instance of the collaborators on which the contract can be evaluated: the contract
  lives at address 7, a handle is the plaintext itself, \<open>FHE.add\<close> is addition modulo
  \<open>2^256\<close>, the all-zero handle is the uninitialized one, every signature check passes, and
  the digest of a list of handles is their sum plus the contract's address.
\<close>

definition example_env :: env where
  "example_env =
     \<lparr>this = 7, FHE_asEuint32 = ucast, FHE_add = (\<lambda>a b. a + b),
      FHE_isInitialized = (\<lambda>h. h \<noteq> 0), FHE_toBytes32 = (\<lambda>h. h),
      FHE_checkSignatures = (\<lambda>_ _ _. True),
      keccak256_abi_encode = (\<lambda>cts a. sum_list cts + ucast a)\<rparr>"

text \<open>
  The deployer (address 5) submits at time 100; then the owner sets the largest cooldown.
\<close>

definition overflow_state :: state where
  "overflow_state =
     run example_env (initial example_env 5)
       [\<lparr>msg_sender = 5, block_timestamp = 100, tx_call = SubmitMod 1 3\<rparr>,
        \<lparr>msg_sender = 5, block_timestamp = 150, tx_call = SetCooldown (- 1)\<rparr>]"

text \<open>The owner opens a second batch on a freshly deployed contract.\<close>

definition two_active_state :: state where
  "two_active_state =
     run example_env (initial example_env 5)
       [\<lparr>msg_sender = 5, block_timestamp = 40, tx_call = OpenBatch\<rparr>]"

text \<open>
  The deployer submits nine scores into the first batch, one every hundred seconds.
\<close>

definition nine_submissions_state :: state where
  "nine_submissions_state =
     run example_env (initial example_env 5)
       [\<lparr>msg_sender = 5, block_timestamp = 100, tx_call = SubmitMod 1 1\<rparr>,
        \<lparr>msg_sender = 5, block_timestamp = 200, tx_call = SubmitMod 1 2\<rparr>,
        \<lparr>msg_sender = 5, block_timestamp = 300, tx_call = SubmitMod 1 3\<rparr>,
        \<lparr>msg_sender = 5, block_timestamp = 400, tx_call = SubmitMod 1 4\<rparr>,
        \<lparr>msg_sender = 5, block_timestamp = 500, tx_call = SubmitMod 1 5\<rparr>,
        \<lparr>msg_sender = 5, block_timestamp = 600, tx_call = SubmitMod 1 6\<rparr>,
        \<lparr>msg_sender = 5, block_timestamp = 700, tx_call = SubmitMod 1 7\<rparr>,
        \<lparr>msg_sender = 5, block_timestamp = 800, tx_call = SubmitMod 1 8\<rparr>,
        \<lparr>msg_sender = 5, block_timestamp = 900, tx_call = SubmitMod 1 9\<rparr>]"

text \<open>
  On the freshly deployed contract the deployer requests the decryption of the first
  batch at time 100, and the oracle hands out the request id 77.
\<close>

definition requested_state :: state where
  "requested_state =
     run example_env (initial example_env 5)
       [\<lparr>msg_sender = 5, block_timestamp = 100, tx_call = RequestBatchDecryption 1 77\<rparr>]"

text \<open>The cleartext 42 as \<open>abi.encode\<close> lays it out: 32 bytes, big-endian.\<close>

definition cleartext_42 :: bytes where
  "cleartext_42 = [0, 0, 0, 0, 0, 0, 0, 0, 0, 0, 0, 0, 0, 0, 0, 0,
                   0, 0, 0, 0, 0, 0, 0, 0, 0, 0, 0, 0, 0, 0, 0, 42]"

subsection \<open>The scores put into a batch\<close>




section \<open>The functions as decision lists\<close>

text \<open>
  Each function of the contract, with its modifiers unfolded, is a list of checks in the
  order the contract runs them, followed by its effect.
\<close>

lemma bind_Inl [simp]: "bind (Inl e) f = Inl e"
  by (simp add: bind_def)

lemma bind_Inr [simp]: "bind (Inr x) f = f x"
  by (simp add: bind_def)

lemma constructor_unfold: "constructor E deployer = Inr (initial E deployer)"
  by (simp add: constructor_def initial_def zero_state_def internal_openBatch_def emit_def)

lemma rateLimited_unfold:
  "rateLimited caller la now s =
     (if lastAction_get la s caller + cooldownSeconds s < lastAction_get la s caller
      then Inl Panic_overflow
      else if now < lastAction_get la s caller + cooldownSeconds s then Inl RateLimited
      else Inr (lastAction_set la caller now s))"
  by (simp add: rateLimited_def checked_add_def)

lemma submitMod_body_unfold:
  "submitMod_body E sender bid x (lastAction_set LastSubmissionAt sender now s) =
     (if \<not> FHE_isInitialized E x then Inl (Error_string ''Uninitialized: encryptedScore'')
      else if submissionCount (batches s bid) + 1 < submissionCount (batches s bid)
        then Inl Panic_overflow
      else if \<not> 10 \<le> submissionCount (batches s bid) + 1
        then Inr (accepted E sender now bid x s)
      else if sender \<noteq> owner s then Inl NotOwner
      else if \<not> isActive (batches s bid) then Inl BatchClosed
      else if currentBatchId s + 1 < currentBatchId s then Inl Panic_overflow
      else Inr (rolled_over E bid (accepted E sender now bid x s)))"
  by (simp add: submitMod_body_def requireInitialized_def checked_add_def Let_def emit_def
      closeBatch_def onlyOwner_def batchActive_def openBatch_def internal_openBatch_def
      accepted_def rolled_over_def)

lemma submitMod_unfold:
  "submitMod E sender now bid x s =
     (if \<not> isProvider s sender then Inl NotProvider
      else if paused s then Inl Paused
      else if \<not> isActive (batches s bid) then Inl BatchClosed
      else if lastSubmissionAt s sender + cooldownSeconds s < lastSubmissionAt s sender
        then Inl Panic_overflow
      else if now < lastSubmissionAt s sender + cooldownSeconds s then Inl RateLimited
      else if \<not> FHE_isInitialized E x then Inl (Error_string ''Uninitialized: encryptedScore'')
      else if submissionCount (batches s bid) + 1 < submissionCount (batches s bid)
        then Inl Panic_overflow
      else if \<not> 10 \<le> submissionCount (batches s bid) + 1
        then Inr (accepted E sender now bid x s)
      else if sender \<noteq> owner s then Inl NotOwner
      else if currentBatchId s + 1 < currentBatchId s then Inl Panic_overflow
      else Inr (rolled_over E bid (accepted E sender now bid x s)))"
  by (simp add: submitMod_def onlyProvider_def whenNotPaused_def batchActive_def
      rateLimited_unfold submitMod_body_unfold del: lastAction_set.simps)

lemma admin_unfold:
  "addProvider sender p s =
     (if sender \<noteq> owner s then Inl NotOwner
      else Inr (s\<lparr>isProvider := (isProvider s)(p := True),
                  events := events s @ [ProviderAdded p]\<rparr>))"
  "removeProvider sender p s =
     (if sender \<noteq> owner s then Inl NotOwner
      else Inr (s\<lparr>isProvider := (isProvider s)(p := False),
                  events := events s @ [ProviderRemoved p]\<rparr>))"
  "pause sender s =
     (if sender \<noteq> owner s then Inl NotOwner
      else Inr (s\<lparr>paused := True, events := events s @ [PausedEvent]\<rparr>))"
  "unpause sender s =
     (if sender \<noteq> owner s then Inl NotOwner
      else Inr (s\<lparr>paused := False, events := events s @ [Unpaused]\<rparr>))"
  "setCooldown sender n s =
     (if sender \<noteq> owner s then Inl NotOwner
      else Inr (s\<lparr>cooldownSeconds := n, events := events s @ [CooldownUpdated n]\<rparr>))"
  by (simp_all add: addProvider_def removeProvider_def pause_def unpause_def setCooldown_def
      onlyOwner_def emit_def)

lemma openBatch_unfold:
  "openBatch E sender s =
     (if sender \<noteq> owner s then Inl NotOwner
      else if currentBatchId s + 1 < currentBatchId s then Inl Panic_overflow
      else Inr (s\<lparr>currentBatchId := currentBatchId s + 1,
                  batches := (batches s)(currentBatchId s + 1 :=
                    \<lparr>isActive = True, submissionCount = 0,
                     encryptedAggregate = FHE_asEuint32 E 0\<rparr>),
                  events := events s @ [BatchOpened (currentBatchId s + 1)]\<rparr>))"
  by (simp add: openBatch_def onlyOwner_def checked_add_def Let_def internal_openBatch_def
      emit_def)

lemma closeBatch_unfold:
  "closeBatch sender bid s =
     (if sender \<noteq> owner s then Inl NotOwner
      else if \<not> isActive (batches s bid) then Inl BatchClosed
      else Inr (s\<lparr>batches := (batches s)(bid := (batches s bid)\<lparr>isActive := False\<rparr>),
                  events := events s @ [BatchClosedEvent bid]\<rparr>))"
  by (simp add: closeBatch_def onlyOwner_def batchActive_def emit_def)

lemma requestBatchDecryption_unfold:
  "requestBatchDecryption E sender now bid rid s =
     (if \<not> isProvider s sender then Inl NotProvider
      else if paused s then Inl Paused
      else if lastDecryptionRequestAt s sender + cooldownSeconds s
                < lastDecryptionRequestAt s sender
        then Inl Panic_overflow
      else if now < lastDecryptionRequestAt s sender + cooldownSeconds s then Inl RateLimited
      else if \<not> isActive (batches s bid) then Inl BatchClosed
      else Inr (s\<lparr>lastDecryptionRequestAt := (lastDecryptionRequestAt s)(sender := now),
                  decryptionContexts := (decryptionContexts s)
                    (rid := \<lparr>batchId = bid,
                             stateHash = hashCiphertexts E
                               [FHE_toBytes32 E (encryptedAggregate (batches s bid))],
                             processed = False, requester = sender\<rparr>),
                  events := events s @
                    [DecryptionRequested rid bid
                       (hashCiphertexts E
                          [FHE_toBytes32 E (encryptedAggregate (batches s bid))])]\<rparr>))"
  by (simp add: requestBatchDecryption_def onlyProvider_def whenNotPaused_def
      rateLimited_unfold Let_def emit_def)

lemma onBatchDecryptionComplete_unfold:
  "onBatchDecryptionComplete E rid ct pf s =
     (if processed (decryptionContexts s rid) then Inl ReplayAttempt
      else if hashCiphertexts E
                [FHE_toBytes32 E
                   (encryptedAggregate (batches s (batchId (decryptionContexts s rid))))]
              \<noteq> stateHash (decryptionContexts s rid)
        then Inl InvalidState
      else if \<not> FHE_checkSignatures E rid ct pf then Inl Invalid_signatures
      else case abi_decode_uint256 ct of
             Inl e \<Rightarrow> Inl e
           | Inr score \<Rightarrow>
               Inr (s\<lparr>decryptionContexts := (decryptionContexts s)
                        (rid := (decryptionContexts s rid)\<lparr>processed := True\<rparr>),
                      events := events s @
                        [DecryptionComplete rid (batchId (decryptionContexts s rid)) score]\<rparr>))"
  by (simp add: onBatchDecryptionComplete_def Let_def emit_def bind_def split: sum.splits)

lemmas exec_unfold =
  admin_unfold openBatch_unfold closeBatch_unfold submitMod_unfold
  requestBatchDecryption_unfold onBatchDecryptionComplete_unfold

lemma submitMod_InrE:
  assumes "submitMod E sender now bid x s = Inr s'"
  obtains
    (plain) "isProvider s sender" and "\<not> paused s" and "isActive (batches s bid)"
      and "\<not> lastSubmissionAt s sender + cooldownSeconds s < lastSubmissionAt s sender"
      and "\<not> now < lastSubmissionAt s sender + cooldownSeconds s"
      and "FHE_isInitialized E x"
      and "\<not> 10 \<le> submissionCount (batches s bid) + 1"
      and "s' = accepted E sender now bid x s"
  | (rollover) "isProvider s sender" and "\<not> paused s" and "isActive (batches s bid)"
      and "\<not> lastSubmissionAt s sender + cooldownSeconds s < lastSubmissionAt s sender"
      and "\<not> now < lastSubmissionAt s sender + cooldownSeconds s"
      and "FHE_isInitialized E x"
      and "10 \<le> submissionCount (batches s bid) + 1"
      and "sender = owner s"
      and "\<not> currentBatchId s + 1 < currentBatchId s"
      and "s' = rolled_over E bid (accepted E sender now bid x s)"
  using assms by (simp add: submitMod_unfold split: if_splits)

lemma submitMod_closed:
  assumes "\<not> isActive (batches s bid)"
  shows "submitMod E sender now bid x s =
     (if \<not> isProvider s sender then Inl NotProvider
      else if paused s then Inl Paused else Inl BatchClosed)"
  using assms by (simp add: submitMod_unfold)

text \<open>
  The rollover at the end of \<open>submitMod\<close> goes through \<open>closeBatch\<close> and \<open>openBatch\<close>, which
  are \<open>onlyOwner\<close>: a submission that would be the tenth of its batch reverts with
  \<open>NotOwner\<close> when its sender is a provider other than the owner.
\<close>

lemma tenth_submission_of_non_owner_reverts:
  assumes "isProvider s sender" and "\<not> paused s" and "isActive (batches s bid)"
    and "rateLimited sender LastSubmissionAt now s = Inr s1" and "FHE_isInitialized E x"
    and "submissionCount (batches s bid) = 9" and "sender \<noteq> owner s"
  shows "submitMod E sender now bid x s = Inl NotOwner"
  using assms by (simp add: submitMod_unfold rateLimited_unfold split: if_splits)

lemma transact_cases:
  obtains (reverted) e where "exec E (msg_sender t) (block_timestamp t) (tx_call t) s = Inl e"
      and "transact E s t = s"
  | (committed) "exec E (msg_sender t) (block_timestamp t) (tx_call t) s = Inr (transact E s t)"
  by (cases "exec E (msg_sender t) (block_timestamp t) (tx_call t) s")
     (simp_all add: transact_def)

lemma run_Nil [simp]: "run E s [] = s"
  by (simp add: run_def)

lemma run_Cons [simp]: "run E s (t # ts) = run E (transact E s t) ts"
  by (simp add: run_def)

lemma run_append: "run E s (ts @ us) = run E (run E s ts) us"
  by (simp add: run_def)

section \<open>Checked arithmetic\<close>

lemma inc_greater: "\<not> a + 1 < a \<Longrightarrow> a < a + (1::uint256)"
  by (metis add_cancel_right_right zero_neq_one not_less_iff_gr_or_eq)

lemma inc_nonzero: "\<not> a + 1 < a \<Longrightarrow> a + 1 \<noteq> (0::uint256)"
  using inc_greater [of a] by auto

lemma word_nonzero_ge_1: "b \<noteq> 0 \<Longrightarrow> 1 \<le> (b::uint256)"
  by (simp add: word_le_nat_alt unat_gt_0 Suc_le_eq)

lemma no_overflow_unat: "\<not> a + b < a \<Longrightarrow> unat (a + b) = unat a + unat (b::uint256)"
  by (simp only: not_less unat_plus_simple)

lemma unat_sum_fits:
  assumes "unat a + unat b \<le> unat (c::uint256)"
  shows "\<not> a + b < (a::uint256)"
proof -
  have "unat c < 2 ^ LENGTH(256)" by (rule unsigned_less)
  with assms have "unat a + unat b < 2 ^ LENGTH(256)" by (rule le_less_trans)
  then have "a \<le> a + b" by (rule no_olen_add_nat [THEN iffD2])
  then show ?thesis by (simp only: not_less)
qed

lemma overflow_iff: "a + b < a \<longleftrightarrow> 2 ^ 256 \<le> unat a + unat (b::uint256)"
proof -
  have "a \<le> a + b \<longleftrightarrow> unat a + unat b < 2 ^ LENGTH(256)" by (rule no_olen_add_nat)
  then have "\<not> a \<le> a + b \<longleftrightarrow> \<not> unat a + unat b < 2 ^ LENGTH(256)" by (rule arg_cong)
  then have *: "a + b < a \<longleftrightarrow> 2 ^ LENGTH(256) \<le> unat a + unat b" by (simp only: not_le not_less)
  have "LENGTH(256) = 256" by simp
  with * show ?thesis by (simp only:)
qed

lemma rateLimited_math:
  "rateLimited actor kind now s =
     (if 2 ^ 256 \<le> unat (lastAction_get kind s actor) + unat (cooldownSeconds s)
        then Inl Panic_overflow
      else if unat now < unat (lastAction_get kind s actor) + unat (cooldownSeconds s)
        then Inl RateLimited
      else Inr (lastAction_set kind actor now s))"
proof (cases "lastAction_get kind s actor + cooldownSeconds s < lastAction_get kind s actor")
  case True
  then show ?thesis by (simp only: rateLimited_unfold overflow_iff [symmetric] if_True)
next
  case False
  then have "unat (lastAction_get kind s actor + cooldownSeconds s)
      = unat (lastAction_get kind s actor) + unat (cooldownSeconds s)"
    by (rule no_overflow_unat)
  with False show ?thesis
    by (simp only: rateLimited_unfold overflow_iff [symmetric] if_False word_less_nat_alt)
qed

lemma lastAction_get_set:
  "lastAction_get kind (lastAction_set kind actor now s) actor = now"
  by (cases kind) simp_all

text \<open>
  The cooldown example. With a cooldown of 30 seconds, a provider whose last accepted
  submission was at time \<open>T\<close>, into a batch that is still active and holds that one
  submission, is rate limited at \<open>T + 10\<close> and accepted at \<open>T + 31\<close>, which makes the
  count 2.
\<close>

lemma cooldown_example:
  assumes "isProvider s actor" and "\<not> paused s" and "isActive (batches s bid)"
    and "cooldownSeconds s = 30" and "lastSubmissionAt s actor = T"
    and "submissionCount (batches s bid) = 1"
    and "unat t1 = unat T + 10" and "unat t2 = unat T + 31"
    and "FHE_isInitialized E y"
  shows "submitMod E actor t1 bid y s = Inl RateLimited
    \<and> submitMod E actor t2 bid y s = Inr (accepted E actor t2 bid y s)
    \<and> submissionCount (batches (accepted E actor t2 bid y s) bid) = 2"
proof -
  from assms(8) have "unat T + unat (30::uint256) \<le> unat t2" by simp
  then have fits: "\<not> T + 30 < T" by (rule unat_sum_fits)
  then have sum: "unat (T + 30) = unat T + 30" by (simp add: no_overflow_unat)
  from sum assms(7) have lt: "t1 < T + 30" by (simp add: word_less_nat_alt)
  from sum assms(8) have ge: "\<not> t2 < T + 30" by (simp add: word_less_nat_alt)
  from assms(1-5) fits lt have first: "submitMod E actor t1 bid y s = Inl RateLimited"
    by (simp add: submitMod_unfold)
  from assms(1-6,9) fits ge
  have second: "submitMod E actor t2 bid y s = Inr (accepted E actor t2 bid y s)"
    by (simp add: submitMod_unfold word_le_nat_alt)
  from assms(6) have "submissionCount (batches (accepted E actor t2 bid y s) bid) = 2"
    by (simp add: accepted_def)
  with first second show ?thesis by simp
qed

text \<open>
  The example from time 0: the owner sets the cooldown to 0, the deployer's submission at
  time 0 is accepted, and the owner sets the cooldown to 30. The deployer is then rate
  limited at time 10 and accepted at time 31, as the second submission of the batch.
\<close>

lemma cooldown_example_from_time_0:
  "submissionCount
     (batches (run example_env (initial example_env 5)
        [\<lparr>msg_sender = 5, block_timestamp = 0, tx_call = SetCooldown 0\<rparr>,
         \<lparr>msg_sender = 5, block_timestamp = 0, tx_call = SubmitMod 1 3\<rparr>,
         \<lparr>msg_sender = 5, block_timestamp = 0, tx_call = SetCooldown 30\<rparr>]) 1) = 1
   \<and> submitMod example_env 5 10 1 4
        (run example_env (initial example_env 5)
           [\<lparr>msg_sender = 5, block_timestamp = 0, tx_call = SetCooldown 0\<rparr>,
            \<lparr>msg_sender = 5, block_timestamp = 0, tx_call = SubmitMod 1 3\<rparr>,
            \<lparr>msg_sender = 5, block_timestamp = 0, tx_call = SetCooldown 30\<rparr>])
       = Inl RateLimited
   \<and> submissionCount
        (batches (transact example_env
           (run example_env (initial example_env 5)
              [\<lparr>msg_sender = 5, block_timestamp = 0, tx_call = SetCooldown 0\<rparr>,
               \<lparr>msg_sender = 5, block_timestamp = 0, tx_call = SubmitMod 1 3\<rparr>,
               \<lparr>msg_sender = 5, block_timestamp = 0, tx_call = SetCooldown 30\<rparr>])
           \<lparr>msg_sender = 5, block_timestamp = 31, tx_call = SubmitMod 1 4\<rparr>) 1) = 2"
  by (simp add: transact_def submitMod_unfold admin_unfold accepted_def initial_def
      example_env_def word_le_nat_alt)

section \<open>The batch table\<close>

lemma batch_invD:
  assumes "batch_inv s"
  shows "1 \<le> currentBatchId s"
    and "b = 0 \<or> currentBatchId s < b \<Longrightarrow> batches s b = default_Batch"
    and "isActive (batches s b) \<Longrightarrow> submissionCount (batches s b) < 10"
    and "submissionCount (batches s b) \<le> 10"
  using assms by (auto simp: batch_inv_def)

lemma batch_invI:
  assumes "1 \<le> currentBatchId s"
    and "\<And>b. b = 0 \<or> currentBatchId s < b \<Longrightarrow> batches s b = default_Batch"
    and "\<And>b. isActive (batches s b) \<Longrightarrow> submissionCount (batches s b) < 10"
    and "\<And>b. submissionCount (batches s b) \<le> 10"
  shows "batch_inv s"
  using assms by (auto simp: batch_inv_def)

lemma active_in_range:
  assumes "batch_inv s" and "isActive (batches s b)"
  shows "b \<noteq> 0" and "b \<le> currentBatchId s"
proof -
  from assms(2) have "batches s b \<noteq> default_Batch" by (auto simp: default_Batch_def)
  with batch_invD(2) [OF assms(1), of b] have "\<not> (b = 0 \<or> currentBatchId s < b)" by blast
  then show "b \<noteq> 0" and "b \<le> currentBatchId s" by (simp_all add: not_less)
qed

lemma batch_inv_initial: "batch_inv (initial E d)"
  by (auto simp: batch_inv_def initial_def default_Batch_def)

lemma batch_inv_opened:
  assumes "batch_inv s" and "\<not> currentBatchId s + 1 < currentBatchId s"
  shows "batch_inv (s\<lparr>currentBatchId := currentBatchId s + 1,
                  batches := (batches s)(currentBatchId s + 1 :=
                    \<lparr>isActive = True, submissionCount = 0, encryptedAggregate = z\<rparr>),
                  events := ev\<rparr>)"
proof (rule batch_invI)
  let ?c = "currentBatchId s"
  let ?s' = "s\<lparr>currentBatchId := ?c + 1,
                  batches := (batches s)(?c + 1 :=
                    \<lparr>isActive = True, submissionCount = 0, encryptedAggregate = z\<rparr>),
                  events := ev\<rparr>"
  from assms(2) have lt: "?c < ?c + 1" by (rule inc_greater)
  from assms(2) have nz: "?c + 1 \<noteq> 0" by (rule inc_nonzero)
  from batch_invD(1) [OF assms(1)] lt show "1 \<le> currentBatchId ?s'" by simp
  show "batches ?s' b = default_Batch" if "b = 0 \<or> currentBatchId ?s' < b" for b
  proof -
    from that lt nz have "b \<noteq> ?c + 1" and "b = 0 \<or> ?c < b" by auto
    with batch_invD(2) [OF assms(1), of b] show ?thesis by simp
  qed
  show "submissionCount (batches ?s' b) < 10" if "isActive (batches ?s' b)" for b
    using that batch_invD(3) [OF assms(1), of b] by (cases "b = ?c + 1") simp_all
  show "submissionCount (batches ?s' b) \<le> 10" for b
    using batch_invD(4) [OF assms(1), of b] by (cases "b = ?c + 1") simp_all
qed

lemma batch_inv_closed:
  assumes "batch_inv s"
  shows "batch_inv (s\<lparr>batches := (batches s)(bid := (batches s bid)\<lparr>isActive := False\<rparr>),
                  events := ev\<rparr>)"
proof (rule batch_invI)
  let ?s' = "s\<lparr>batches := (batches s)(bid := (batches s bid)\<lparr>isActive := False\<rparr>),
                  events := ev\<rparr>"
  from batch_invD(1) [OF assms] show "1 \<le> currentBatchId ?s'" by simp
  show "batches ?s' b = default_Batch" if "b = 0 \<or> currentBatchId ?s' < b" for b
    using that batch_invD(2) [OF assms, of b]
    by (cases "b = bid") (auto simp: default_Batch_def)
  show "submissionCount (batches ?s' b) < 10" if "isActive (batches ?s' b)" for b
    using that batch_invD(3) [OF assms, of b] by (cases "b = bid") simp_all
  show "submissionCount (batches ?s' b) \<le> 10" for b
    using batch_invD(4) [OF assms, of b] by (cases "b = bid") simp_all
qed

lemma batch_inv_accepted:
  assumes "batch_inv s" and "isActive (batches s bid)"
    and "\<not> 10 \<le> submissionCount (batches s bid) + 1"
  shows "batch_inv (accepted E sender now bid x s)"
proof (rule batch_invI)
  let ?s' = "accepted E sender now bid x s"
  from assms(1,2) have neq: "bid \<noteq> 0" and le: "bid \<le> currentBatchId s"
    by (rule active_in_range)+
  from batch_invD(1) [OF assms(1)] show "1 \<le> currentBatchId ?s'" by (simp add: accepted_def)
  show "batches ?s' b = default_Batch" if "b = 0 \<or> currentBatchId ?s' < b" for b
  proof -
    from that neq le have "b \<noteq> bid" and "b = 0 \<or> currentBatchId s < b"
      by (auto simp: accepted_def)
    with batch_invD(2) [OF assms(1), of b] show ?thesis by (simp add: accepted_def)
  qed
  show "submissionCount (batches ?s' b) < 10" if "isActive (batches ?s' b)" for b
    using that batch_invD(3) [OF assms(1), of b] assms(3)
    by (cases "b = bid") (simp_all add: accepted_def not_le)
  show "submissionCount (batches ?s' b) \<le> 10" for b
    using batch_invD(4) [OF assms(1), of b] assms(3)
    by (cases "b = bid") (simp_all add: accepted_def not_le less_imp_le)
qed

lemma batch_inv_rolled_over:
  assumes "batch_inv s" and "isActive (batches s bid)"
    and "\<not> currentBatchId s + 1 < currentBatchId s"
  shows "batch_inv (rolled_over E bid (accepted E sender now bid x s))"
proof (rule batch_invI)
  let ?c = "currentBatchId s"
  let ?s' = "rolled_over E bid (accepted E sender now bid x s)"
  from assms(1,2) have neq: "bid \<noteq> 0" and le: "bid \<le> ?c"
    by (rule active_in_range)+
  from assms(3) have lt: "?c < ?c + 1" by (rule inc_greater)
  from assms(3) have nz: "?c + 1 \<noteq> 0" by (rule inc_nonzero)
  from le lt have bid: "bid \<noteq> ?c + 1" by auto
  from batch_invD(3) [OF assms(1,2)] have ten: "submissionCount (batches s bid) + 1 \<le> 10"
    by (rule inc_le)
  from batch_invD(1) [OF assms(1)] lt show "1 \<le> currentBatchId ?s'"
    by (simp add: accepted_def rolled_over_def)
  show "batches ?s' b = default_Batch" if "b = 0 \<or> currentBatchId ?s' < b" for b
  proof -
    from that lt nz neq le have "b \<noteq> ?c + 1" and "b \<noteq> bid" and "b = 0 \<or> ?c < b"
      by (auto simp: accepted_def rolled_over_def)
    with batch_invD(2) [OF assms(1), of b] show ?thesis
      by (simp add: accepted_def rolled_over_def)
  qed
  show "submissionCount (batches ?s' b) < 10" if "isActive (batches ?s' b)" for b
    using that batch_invD(3) [OF assms(1), of b] bid
    by (cases "b = ?c + 1"; cases "b = bid") (simp_all add: accepted_def rolled_over_def)
  show "submissionCount (batches ?s' b) \<le> 10" for b
    using batch_invD(4) [OF assms(1), of b] bid ten
    by (cases "b = ?c + 1"; cases "b = bid") (simp_all add: accepted_def rolled_over_def)
qed

lemma batch_inv_irrelevant:
  assumes "batch_inv s" and "currentBatchId s' = currentBatchId s" and "batches s' = batches s"
  shows "batch_inv s'"
  using assms by (simp add: batch_inv_def)

lemma batch_inv_submitMod:
  assumes "batch_inv s" and "submitMod E sender now bid x s = Inr s'"
  shows "batch_inv s'"
  using assms(2)
proof (cases rule: submitMod_InrE)
  case plain
  with assms(1) show ?thesis by (simp add: batch_inv_accepted)
next
  case rollover
  with assms(1) show ?thesis by (simp add: batch_inv_rolled_over)
qed

lemma batch_inv_exec:
  assumes "batch_inv s" and "exec E sender now c s = Inr s'"
  shows "batch_inv s'"
proof (cases c)
  case (AddProvider p)
  with assms show ?thesis
    by (auto simp: addProvider_def onlyOwner_def emit_def batch_inv_def split: if_splits)
next
  case (RemoveProvider p)
  with assms show ?thesis
    by (auto simp: removeProvider_def onlyOwner_def emit_def batch_inv_def split: if_splits)
next
  case Pause
  with assms show ?thesis
    by (auto simp: pause_def onlyOwner_def emit_def batch_inv_def split: if_splits)
next
  case Unpause
  with assms show ?thesis
    by (auto simp: unpause_def onlyOwner_def emit_def batch_inv_def split: if_splits)
next
  case (SetCooldown n)
  with assms show ?thesis
    by (auto simp: setCooldown_def onlyOwner_def emit_def batch_inv_def split: if_splits)
next
  case OpenBatch
  with assms(2) have "\<not> currentBatchId s + 1 < currentBatchId s"
    and "s' = s\<lparr>currentBatchId := currentBatchId s + 1,
                  batches := (batches s)(currentBatchId s + 1 :=
                    \<lparr>isActive = True, submissionCount = 0,
                     encryptedAggregate = FHE_asEuint32 E 0\<rparr>),
                  events := events s @ [BatchOpened (currentBatchId s + 1)]\<rparr>"
    by (simp_all add: openBatch_unfold split: if_splits)
  with assms(1) show ?thesis by (simp add: batch_inv_opened)
next
  case (CloseBatch bid)
  with assms(2) have
    "s' = s\<lparr>batches := (batches s)(bid := (batches s bid)\<lparr>isActive := False\<rparr>),
             events := events s @ [BatchClosedEvent bid]\<rparr>"
    by (simp add: closeBatch_unfold split: if_splits)
  with assms(1) show ?thesis by (simp add: batch_inv_closed)
next
  case (SubmitMod bid x)
  with assms show ?thesis by (simp add: batch_inv_submitMod)
next
  case (RequestBatchDecryption bid rid)
  with assms(2) have "currentBatchId s' = currentBatchId s" and "batches s' = batches s"
    by (auto simp: requestBatchDecryption_unfold split: if_splits)
  with assms(1) show ?thesis by (rule batch_inv_irrelevant)
next
  case (OnBatchDecryptionComplete rid ct pf)
  with assms(2) have "currentBatchId s' = currentBatchId s" and "batches s' = batches s"
    by (auto simp: onBatchDecryptionComplete_unfold split: if_splits sum.splits)
  with assms(1) show ?thesis by (rule batch_inv_irrelevant)
qed

lemma batch_inv_transact: "batch_inv s \<Longrightarrow> batch_inv (transact E s t)"
  by (cases rule: transact_cases [of E t s]) (auto intro: batch_inv_exec)

lemma batch_inv_run: "batch_inv s \<Longrightarrow> batch_inv (run E s ts)"
  by (induction ts arbitrary: s) (simp_all add: batch_inv_transact)

lemma reachable_batch_inv: "reachable E s \<Longrightarrow> batch_inv s"
proof (induction rule: reachable.induct)
  case (deployed deployer s)
  with batch_inv_initial [of E deployer] show ?case by (simp add: constructor_unfold)
next
  case (transacted s t)
  then show ?case by (simp add: batch_inv_transact)
qed

lemma reachable_run: "reachable E s \<Longrightarrow> reachable E (run E s ts)"
  by (induction ts arbitrary: s) (simp_all add: reachable.transacted)

lemma reachable_initial: "reachable E (initial E d)"
  by (rule reachable.deployed) (rule constructor_unfold)

lemma currentBatchId_exec:
  assumes "exec E sender now c s = Inr s'"
  shows "currentBatchId s' = currentBatchId s
    \<or> (currentBatchId s' = currentBatchId s + 1
        \<and> currentBatchId s < currentBatchId s + 1
        \<and> batches s' (currentBatchId s + 1)
            = \<lparr>isActive = True, submissionCount = 0, encryptedAggregate = FHE_asEuint32 E 0\<rparr>)"
proof (cases c)
  case OpenBatch
  with assms show ?thesis
    by (auto simp: openBatch_unfold inc_greater split: if_splits)
next
  case (SubmitMod b x)
  with assms have "submitMod E sender now b x s = Inr s'" by simp
  then show ?thesis
    by (cases rule: submitMod_InrE) (simp_all add: accepted_def rolled_over_def inc_greater)
qed (use assms in \<open>auto simp: exec_unfold split: if_splits sum.splits\<close>)

lemma currentBatchId_transact:
  "currentBatchId (transact E s t) = currentBatchId s
    \<or> (currentBatchId (transact E s t) = currentBatchId s + 1
        \<and> currentBatchId s < currentBatchId s + 1
        \<and> batches (transact E s t) (currentBatchId s + 1)
            = \<lparr>isActive = True, submissionCount = 0, encryptedAggregate = FHE_asEuint32 E 0\<rparr>)"
proof (cases rule: transact_cases [of E t s])
  case (reverted e)
  then show ?thesis by simp
next
  case committed
  then show ?thesis by (rule currentBatchId_exec)
qed

text \<open>A closed batch whose id has been issued stays closed.\<close>

lemma closed_exec:
  assumes "bid \<le> currentBatchId s" and "\<not> isActive (batches s bid)"
    and "exec E sender now c s = Inr s'"
  shows "bid \<le> currentBatchId s' \<and> \<not> isActive (batches s' bid)"
proof (cases c)
  case OpenBatch
  with assms(3) have no: "\<not> currentBatchId s + 1 < currentBatchId s"
    by (simp add: openBatch_unfold split: if_splits)
  then have "currentBatchId s < currentBatchId s + 1" by (rule inc_greater)
  with assms(1) have "bid \<noteq> currentBatchId s + 1" and "bid \<le> currentBatchId s + 1" by auto
  with assms(2,3) OpenBatch no show ?thesis by (auto simp: openBatch_unfold split: if_splits)
next
  case (SubmitMod b x)
  with assms(3) have "submitMod E sender now b x s = Inr s'" by simp
  then show ?thesis
  proof (cases rule: submitMod_InrE)
    case plain
    with assms(1,2) show ?thesis by (auto simp: accepted_def)
  next
    case rollover
    from rollover(9) have "currentBatchId s < currentBatchId s + 1" by (rule inc_greater)
    with assms(1) have "bid \<noteq> currentBatchId s + 1" and "bid \<le> currentBatchId s + 1" by auto
    with assms(2) rollover show ?thesis by (auto simp: accepted_def rolled_over_def)
  qed
qed (use assms in \<open>auto simp: exec_unfold split: if_splits sum.splits\<close>)

lemma closed_transact:
  assumes "bid \<le> currentBatchId s" and "\<not> isActive (batches s bid)"
  shows "bid \<le> currentBatchId (transact E s t) \<and> \<not> isActive (batches (transact E s t) bid)"
  by (cases rule: transact_cases [of E t s]) (use assms in \<open>auto dest: closed_exec\<close>)

lemma closed_run:
  assumes "bid \<le> currentBatchId s" and "\<not> isActive (batches s bid)"
  shows "bid \<le> currentBatchId (run E s ts) \<and> \<not> isActive (batches (run E s ts) bid)"
  using assms by (induction ts arbitrary: s) (simp_all add: closed_transact)

lemma tenth_submission:
  assumes "batch_inv s"
    and "submissionCount (batches s bid) = 9"
    and "submitMod E sender now bid x s = Inr s1"
  shows "s1 = rolled_over E bid (accepted E sender now bid x s)
    \<and> bid \<le> currentBatchId s \<and> currentBatchId s < currentBatchId s + 1
    \<and> sender = owner s"
  using assms(3)
proof (cases rule: submitMod_InrE)
  case plain
  with assms(2) show ?thesis by simp
next
  case rollover
  from assms(1) rollover(3) have "bid \<le> currentBatchId s" by (rule active_in_range)
  moreover from rollover(9) have "currentBatchId s < currentBatchId s + 1"
    by (rule inc_greater)
  ultimately show ?thesis using rollover by simp
qed

section \<open>The request table\<close>

text \<open>What may change the stored context of a request id.\<close>

lemma context_exec:
  assumes "exec E sender now c s = Inr s'" and "\<not> requests rid c" and "\<not> completes rid c"
  shows "decryptionContexts s' rid = decryptionContexts s rid"
proof (cases c)
  case (SubmitMod b x)
  with assms(1) have "submitMod E sender now b x s = Inr s'" by simp
  then show ?thesis
    by (cases rule: submitMod_InrE) (simp_all add: accepted_def rolled_over_def)
qed (use assms in \<open>auto simp: exec_unfold split: if_splits sum.splits\<close>)

lemma context_transact:
  assumes "\<not> requests rid (tx_call t)" and "\<not> completes rid (tx_call t)"
  shows "decryptionContexts (transact E s t) rid = decryptionContexts s rid"
  by (cases rule: transact_cases [of E t s]) (use assms in \<open>auto dest: context_exec\<close>)

lemma context_run:
  assumes "\<forall>t\<in>set ts. \<not> requests rid (tx_call t) \<and> \<not> completes rid (tx_call t)"
  shows "decryptionContexts (run E s ts) rid = decryptionContexts s rid"
  using assms by (induction ts arbitrary: s) (simp_all add: context_transact)

lemma processed_exec:
  assumes "exec E sender now c s = Inr s'" and "\<not> requests rid c"
    and "processed (decryptionContexts s rid)"
  shows "processed (decryptionContexts s' rid)"
proof (cases "completes rid c")
  case True
  then obtain ct pf where "c = OnBatchDecryptionComplete rid ct pf" by (cases c) auto
  with assms(1,3) show ?thesis by (simp add: onBatchDecryptionComplete_unfold)
next
  case False
  with assms show ?thesis by (simp add: context_exec)
qed

lemma processed_transact:
  assumes "\<not> requests rid (tx_call t)" and "processed (decryptionContexts s rid)"
  shows "processed (decryptionContexts (transact E s t) rid)"
  by (cases rule: transact_cases [of E t s]) (use assms in \<open>auto dest: processed_exec\<close>)

lemma processed_run:
  assumes "\<forall>t\<in>set ts. \<not> requests rid (tx_call t)" and "processed (decryptionContexts s rid)"
  shows "processed (decryptionContexts (run E s ts) rid)"
  using assms by (induction ts arbitrary: s) (simp_all add: processed_transact)

lemma requestBatchDecryption_context:
  assumes "requestBatchDecryption E sender now bid rid s = Inr s1"
  shows "decryptionContexts s1 rid =
      \<lparr>batchId = bid,
       stateHash = hashCiphertexts E [FHE_toBytes32 E (encryptedAggregate (batches s bid))],
       processed = False, requester = sender\<rparr>"
  using assms by (auto simp: requestBatchDecryption_unfold split: if_splits)

lemma default_context_exec:
  assumes "batch_inv s"
    and "hashCiphertexts E [FHE_toBytes32 E (encryptedAggregate default_Batch)]
           \<noteq> stateHash default_DecryptionContext"
    and "decryptionContexts s rid = default_DecryptionContext"
    and "\<not> requests rid c"
    and "exec E sender now c s = Inr s'"
  shows "decryptionContexts s' rid = default_DecryptionContext"
proof (cases "completes rid c")
  case True
  then obtain ct pf where c: "c = OnBatchDecryptionComplete rid ct pf" by (cases c) auto
  from assms(1) have "batches s 0 = default_Batch" by (simp add: batch_invD(2))
  with assms(2,3) have "onBatchDecryptionComplete E rid ct pf s = Inl InvalidState"
    by (simp add: onBatchDecryptionComplete_unfold default_DecryptionContext_def)
  with assms(5) c show ?thesis by simp
next
  case False
  with assms(3,4,5) show ?thesis by (simp add: context_exec)
qed

lemma default_context_run:
  assumes "batch_inv s"
    and "hashCiphertexts E [FHE_toBytes32 E (encryptedAggregate default_Batch)]
           \<noteq> stateHash default_DecryptionContext"
    and "decryptionContexts s rid = default_DecryptionContext"
    and "\<forall>t\<in>set ts. \<not> requests rid (tx_call t)"
  shows "decryptionContexts (run E s ts) rid = default_DecryptionContext"
  using assms
proof (induction ts arbitrary: s)
  case Nil
  then show ?case by simp
next
  case (Cons t ts)
  have "decryptionContexts (transact E s t) rid = default_DecryptionContext"
  proof (cases rule: transact_cases [of E t s])
    case (reverted e)
    with Cons.prems(3) show ?thesis by simp
  next
    case committed
    with Cons.prems show ?thesis by (auto intro: default_context_exec)
  qed
  moreover from Cons.prems(1) have "batch_inv (transact E s t)" by (rule batch_inv_transact)
  ultimately show ?case using Cons.prems(2,4) Cons.IH by simp
qed

section \<open>Aggregation\<close>








section \<open>The example scenarios, evaluated\<close>

lemma overflow_state_unfold:
  "overflow_state =
     (initial example_env 5)
       \<lparr>cooldownSeconds := - 1,
        lastSubmissionAt := (\<lambda>_. 0)(5 := 100),
        batches := (\<lambda>_. default_Batch)
          (1 := \<lparr>isActive = True, submissionCount = 1, encryptedAggregate = 3\<rparr>),
        events := [BatchOpened 1, ModSubmission 5 1 3, CooldownUpdated (- 1)]\<rparr>"
  by (simp add: overflow_state_def transact_def submitMod_unfold admin_unfold accepted_def
      initial_def example_env_def word_le_nat_alt)

lemma two_active_state_unfold:
  "two_active_state =
     (initial example_env 5)
       \<lparr>currentBatchId := 2,
        batches := (\<lambda>_. default_Batch)
          (1 := \<lparr>isActive = True, submissionCount = 0, encryptedAggregate = 0\<rparr>,
           2 := \<lparr>isActive = True, submissionCount = 0, encryptedAggregate = 0\<rparr>),
        events := [BatchOpened 1, BatchOpened 2]\<rparr>"
  by (simp add: two_active_state_def transact_def openBatch_unfold initial_def example_env_def)

lemma nine_submissions_state_unfold:
  "nine_submissions_state =
     (initial example_env 5)
       \<lparr>lastSubmissionAt := (\<lambda>_. 0)(5 := 900),
        batches := (\<lambda>_. default_Batch)
          (1 := \<lparr>isActive = True, submissionCount = 9, encryptedAggregate = 45\<rparr>),
        events := [BatchOpened 1, ModSubmission 5 1 1, ModSubmission 5 1 2,
          ModSubmission 5 1 3, ModSubmission 5 1 4, ModSubmission 5 1 5, ModSubmission 5 1 6,
          ModSubmission 5 1 7, ModSubmission 5 1 8, ModSubmission 5 1 9]\<rparr>"
  by (simp add: nine_submissions_state_def transact_def submitMod_unfold accepted_def
      initial_def example_env_def word_le_nat_alt)

lemma reachable_nine_submissions_state: "reachable example_env nine_submissions_state"
  unfolding nine_submissions_state_def by (rule reachable_run) (rule reachable_initial)

lemma requested_state_unfold:
  "requested_state =
     (initial example_env 5)
       \<lparr>lastDecryptionRequestAt := (\<lambda>_. 0)(5 := 100),
        decryptionContexts := (\<lambda>_. default_DecryptionContext)
          (77 := \<lparr>batchId = 1, stateHash = 7, processed = False, requester = 5\<rparr>),
        events := [BatchOpened 1, DecryptionRequested 77 1 7]\<rparr>"
  by (simp add: requested_state_def transact_def requestBatchDecryption_unfold
      hashCiphertexts_def initial_def example_env_def)

lemma reachable_requested_state: "reachable example_env requested_state"
  unfolding requested_state_def by (rule reachable_run) (rule reachable_initial)

lemma abi_decode_cleartext_42: "abi_decode_uint256 cleartext_42 = Inr 42"
  by (simp add: abi_decode_uint256_def cleartext_42_def)

section \<open>The claims\<close>

text \<open>
  C1. When a submission is accepted as the tenth of its batch, the same call emits the
  submission event and then, in this order, the aggregate-commit event, the close event of
  the batch and the open event of the next id; the batch is closed with count 10 and its
  final aggregate; \<open>currentBatchId\<close> has advanced by one and the batch of the new id is
  active and empty. All of this is the effect of the one transaction. The next submission
  of any provider into the old id fails with \<open>BatchClosed\<close>; and whatever transactions
  follow, every later submission into the old id fails: with \<open>BatchClosed\<close> when the
  caller is a provider and the system is not paused, the two checks that precede the
  batch check.
\<close>

theorem tenth_submission_rolls_over:
  assumes "reachable E s"
    and "submissionCount (batches s bid) = 9"
    and "submitMod E sender now bid x s = Inr s1"
  shows "events s1 = events s @
        [ModSubmission sender bid (FHE_toBytes32 E x),
         BatchAggregateCommitted bid (FHE_add E (encryptedAggregate (batches s bid)) x),
         BatchClosedEvent bid, BatchOpened (currentBatchId s + 1)]
    \<and> batches s1 bid =
        \<lparr>isActive = False, submissionCount = 10,
         encryptedAggregate = FHE_add E (encryptedAggregate (batches s bid)) x\<rparr>
    \<and> currentBatchId s1 = currentBatchId s + 1
    \<and> currentBatchId s < currentBatchId s1
    \<and> batches s1 (currentBatchId s1) =
        \<lparr>isActive = True, submissionCount = 0, encryptedAggregate = FHE_asEuint32 E 0\<rparr>
    \<and> transact E s \<lparr>msg_sender = sender, block_timestamp = now, tx_call = SubmitMod bid x\<rparr>
        = s1
    \<and> (\<forall>caller t y. isProvider s1 caller \<longrightarrow>
          submitMod E caller t bid y s1 = Inl BatchClosed)
    \<and> (\<forall>ts caller t y.
          submitMod E caller t bid y (run E s1 ts) =
            (if \<not> isProvider (run E s1 ts) caller then Inl NotProvider
             else if paused (run E s1 ts) then Inl Paused
             else Inl BatchClosed))"
proof -
  from assms(1) have inv: "batch_inv s" by (rule reachable_batch_inv)
  from tenth_submission [OF inv assms(2,3)]
  have s1: "s1 = rolled_over E bid (accepted E sender now bid x s)"
    and le: "bid \<le> currentBatchId s" and lt: "currentBatchId s < currentBatchId s + 1"
    by simp_all
  from assms(3) have tr: "transact E s
      \<lparr>msg_sender = sender, block_timestamp = now, tx_call = SubmitMod bid x\<rparr> = s1"
    by (simp add: transact_def)
  from assms(3) have "\<not> paused s" by (cases rule: submitMod_InrE)
  with s1 have np: "\<not> paused s1" by (simp add: rolled_over_def accepted_def)
  from le lt have neq: "bid \<noteq> currentBatchId s + 1" by auto
  from s1 have ev: "events s1 = events s @
        [ModSubmission sender bid (FHE_toBytes32 E x),
         BatchAggregateCommitted bid (FHE_add E (encryptedAggregate (batches s bid)) x),
         BatchClosedEvent bid, BatchOpened (currentBatchId s + 1)]"
    by (simp add: rolled_over_def accepted_def)
  from s1 neq assms(2) have old: "batches s1 bid =
        \<lparr>isActive = False, submissionCount = 10,
         encryptedAggregate = FHE_add E (encryptedAggregate (batches s bid)) x\<rparr>"
    by (simp add: rolled_over_def accepted_def)
  from s1 have cur: "currentBatchId s1 = currentBatchId s + 1"
    by (simp add: rolled_over_def accepted_def)
  from s1 have new: "batches s1 (currentBatchId s + 1) =
        \<lparr>isActive = True, submissionCount = 0, encryptedAggregate = FHE_asEuint32 E 0\<rparr>"
    by (simp add: rolled_over_def accepted_def)
  from le lt cur have "bid \<le> currentBatchId s1" by simp
  moreover from old have "\<not> isActive (batches s1 bid)" by simp
  ultimately have "\<not> isActive (batches (run E s1 ts) bid)" for ts
    by (simp add: closed_run)
  then have "submitMod E caller t bid y (run E s1 ts) =
            (if \<not> isProvider (run E s1 ts) caller then Inl NotProvider
             else if paused (run E s1 ts) then Inl Paused
             else Inl BatchClosed)" for ts caller t y
    by (rule submitMod_closed)
  note later = this
  from later [of _ _ _ "[]"] np
  have "submitMod E caller t bid y s1 = Inl BatchClosed" if "isProvider s1 caller"
    for caller t y
    using that by simp
  with ev old cur new lt tr later show ?thesis by simp
qed

text \<open>
  For example, after nine submissions of the deployer into the first batch, the deployer's
  tenth closes batch 1 and opens batch 2, and the deployer's next submission into batch 1
  fails with \<open>BatchClosed\<close>.
\<close>

theorem tenth_submission_rolls_over_witness:
  "reachable example_env nine_submissions_state
   \<and> submissionCount (batches nine_submissions_state 1) = 9
   \<and> submitMod example_env 5 1000 1 10 nine_submissions_state
       = Inr (rolled_over example_env 1
                (accepted example_env 5 1000 1 10 nine_submissions_state))
   \<and> batches (rolled_over example_env 1
                (accepted example_env 5 1000 1 10 nine_submissions_state)) 1
       = \<lparr>isActive = False, submissionCount = 10, encryptedAggregate = 55\<rparr>
   \<and> currentBatchId (rolled_over example_env 1
                (accepted example_env 5 1000 1 10 nine_submissions_state)) = 2
   \<and> submitMod example_env 5 2000 1 11
        (rolled_over example_env 1
           (accepted example_env 5 1000 1 10 nine_submissions_state))
       = Inl BatchClosed"
proof -
  let ?s = "nine_submissions_state"
  let ?s1 = "rolled_over example_env 1 (accepted example_env 5 1000 1 10 ?s)"
  have a: "submissionCount (batches ?s 1) = 9"
    by (simp add: nine_submissions_state_unfold)
  have b: "submitMod example_env 5 1000 1 10 ?s = Inr ?s1"
    by (simp add: nine_submissions_state_unfold submitMod_unfold initial_def example_env_def)
  have c: "encryptedAggregate (batches ?s 1) = 45" "currentBatchId ?s = 1"
    "FHE_add example_env 45 10 = 55"
    by (simp_all add: nine_submissions_state_unfold initial_def example_env_def)
  have d: "isProvider ?s1 5" "\<not> paused ?s1"
    by (simp_all add: nine_submissions_state_unfold rolled_over_def accepted_def initial_def)
  from tenth_submission_rolls_over [OF reachable_nine_submissions_state a b]
  have "batches ?s1 1 =
        \<lparr>isActive = False, submissionCount = 10,
         encryptedAggregate = FHE_add example_env (encryptedAggregate (batches ?s 1)) 10\<rparr>"
    and "currentBatchId ?s1 = currentBatchId ?s + 1"
    and "isProvider ?s1 5 \<longrightarrow> submitMod example_env 5 2000 1 11 ?s1 = Inl BatchClosed"
    by blast+
  with a b c d reachable_nine_submissions_state show ?thesis by simp
qed

text \<open>
  The guards of \<open>submitMod\<close> in the order the contract runs them, with the body after the
  last; a call that fails leaves the storage and the log unchanged.
\<close>

lemma submitMod_precondition_order:
  "submitMod E sender now bid x s =
     (if \<not> isProvider s sender then Inl NotProvider
      else if paused s then Inl Paused
      else if \<not> isActive (batches s bid) then Inl BatchClosed
      else if lastSubmissionAt s sender + cooldownSeconds s < lastSubmissionAt s sender
        then Inl Panic_overflow
      else if now < lastSubmissionAt s sender + cooldownSeconds s then Inl RateLimited
      else submitMod_body E sender bid x
             (s\<lparr>lastSubmissionAt := (lastSubmissionAt s)(sender := now)\<rparr>))
   \<and> (\<forall>e. submitMod E sender now bid x s = Inl e \<longrightarrow>
          transact E s \<lparr>msg_sender = sender, block_timestamp = now,
                        tx_call = SubmitMod bid x\<rparr> = s)"
  by (simp add: submitMod_def onlyProvider_def whenNotPaused_def batchActive_def
      rateLimited_unfold transact_def)

text \<open>
  C2. \<open>submitMod\<close> checks, in this order and stopping at the first failure, that the caller
  is a provider (else \<open>NotProvider\<close>), that the system is not paused (else \<open>Paused\<close>), that
  the target batch is active (else \<open>BatchClosed\<close>) and that the caller's cooldown has
  elapsed (else \<open>RateLimited\<close>). The contract breaks the last part where the sum in the
  cooldown guard overflows: the deployer, a provider, submits at time 100, the owner sets
  \<open>cooldownSeconds\<close> to \<open>2^256 - 1\<close>, and the deployer submits again at time 200 while the
  batch is active. The first three checks pass and the cooldown has not elapsed, so the
  error to report is \<open>RateLimited\<close>; the contract reverts with the overflow panic of
  \<open>lastAction[caller] + cooldownSeconds\<close> instead.
\<close>

theorem submitMod_cooldown_overflow_panics:
  "isProvider overflow_state 5 \<and> \<not> paused overflow_state
   \<and> isActive (batches overflow_state 1)
   \<and> lastSubmissionAt overflow_state 5 = 100 \<and> cooldownSeconds overflow_state = - 1
   \<and> submitMod example_env 5 200 1 3 overflow_state = Inl Panic_overflow
   \<and> submitMod example_env 5 200 1 3 overflow_state \<noteq> Inl RateLimited"
  by (simp add: overflow_state_unfold submitMod_unfold initial_def)

text \<open>
  C3. After one successful invocation of the callback for a request id, which sets
  \<open>processed\<close>, every later invocation with that id fails with \<open>ReplayAttempt\<close> and leaves the
  storage unchanged, whatever transactions come in between, as long as the oracle does not
  hand out the same request id to a new request.
\<close>

theorem callback_succeeds_at_most_once:
  assumes "onBatchDecryptionComplete E rid ct pf s = Inr s1"
    and "\<forall>t\<in>set ts. \<not> requests rid (tx_call t)"
  shows "processed (decryptionContexts s1 rid)
    \<and> onBatchDecryptionComplete E rid ct' pf' (run E s1 ts) = Inl ReplayAttempt
    \<and> transact E (run E s1 ts)
         \<lparr>msg_sender = sender, block_timestamp = now,
          tx_call = OnBatchDecryptionComplete rid ct' pf'\<rparr> = run E s1 ts"
proof -
  from assms(1) have p: "processed (decryptionContexts s1 rid)"
    by (auto simp: onBatchDecryptionComplete_unfold split: if_splits sum.splits)
  with assms(2) have "processed (decryptionContexts (run E s1 ts) rid)"
    by (rule processed_run)
  then have "onBatchDecryptionComplete E rid ct' pf' (run E s1 ts) = Inl ReplayAttempt"
    by (simp add: onBatchDecryptionComplete_unfold)
  with p show ?thesis by (simp add: transact_def)
qed

text \<open>
  For example, the callback for request 77 succeeds once with the cleartext 42; after a
  further submission by the deployer, a second callback for 77 is a replay.
\<close>

theorem callback_succeeds_at_most_once_witness:
  "onBatchDecryptionComplete example_env 77 cleartext_42 [] requested_state
     = Inr (requested_state
         \<lparr>decryptionContexts := (decryptionContexts requested_state)
            (77 := \<lparr>batchId = 1, stateHash = 7, processed = True, requester = 5\<rparr>),
          events := events requested_state @ [DecryptionComplete 77 1 42]\<rparr>)
   \<and> onBatchDecryptionComplete example_env 77 cleartext_42 []
        (run example_env
           (requested_state
              \<lparr>decryptionContexts := (decryptionContexts requested_state)
                 (77 := \<lparr>batchId = 1, stateHash = 7, processed = True, requester = 5\<rparr>),
               events := events requested_state @ [DecryptionComplete 77 1 42]\<rparr>)
           [\<lparr>msg_sender = 5, block_timestamp = 200, tx_call = SubmitMod 1 3\<rparr>])
     = Inl ReplayAttempt"
proof -
  let ?s1 = "requested_state
      \<lparr>decryptionContexts := (decryptionContexts requested_state)
         (77 := \<lparr>batchId = 1, stateHash = 7, processed = True, requester = 5\<rparr>),
       events := events requested_state @ [DecryptionComplete 77 1 42]\<rparr>"
  let ?ts = "[\<lparr>msg_sender = 5, block_timestamp = 200, tx_call = SubmitMod 1 3\<rparr>]"
  have a: "onBatchDecryptionComplete example_env 77 cleartext_42 [] requested_state = Inr ?s1"
    by (simp add: onBatchDecryptionComplete_unfold requested_state_unfold
        abi_decode_cleartext_42 hashCiphertexts_def initial_def example_env_def)
  have b: "\<forall>t\<in>set ?ts. \<not> requests 77 (tx_call t)" by simp
  from callback_succeeds_at_most_once [OF a b, of cleartext_42 "[]"] a
  show ?thesis by simp
qed

text \<open>
  C4. A decryption request is issued against batch \<open>B\<close>; later a submission is accepted
  into \<open>B\<close>; other transactions may come before and after the submission, but neither the
  callback of this request nor a new request under the same id. If, when the callback
  arrives, the digest of the current aggregate of \<open>B\<close> differs from the digest stored at
  request time, the callback fails with \<open>InvalidState\<close>, and the request is still
  unprocessed afterwards.
\<close>

theorem stale_callback_fails:
  assumes "requestBatchDecryption E requester' t0 B rid s0 = Inr s1"
    and "\<forall>t\<in>set ts1. \<not> requests rid (tx_call t) \<and> \<not> completes rid (tx_call t)"
    and "submitMod E provider t1 B x (run E s1 ts1) = Inr s2"
    and "\<forall>t\<in>set ts2. \<not> requests rid (tx_call t) \<and> \<not> completes rid (tx_call t)"
    and "hashCiphertexts E [FHE_toBytes32 E (encryptedAggregate (batches (run E s2 ts2) B))]
           \<noteq> stateHash (decryptionContexts s1 rid)"
  shows "onBatchDecryptionComplete E rid ct pf (run E s2 ts2) = Inl InvalidState
    \<and> \<not> processed (decryptionContexts
          (transact E (run E s2 ts2)
             \<lparr>msg_sender = sender, block_timestamp = now,
              tx_call = OnBatchDecryptionComplete rid ct pf\<rparr>) rid)"
proof -
  let ?s3 = "run E s2 ts2"
  from assms(1) have ctx1: "decryptionContexts s1 rid =
      \<lparr>batchId = B,
       stateHash = hashCiphertexts E [FHE_toBytes32 E (encryptedAggregate (batches s0 B))],
       processed = False, requester = requester'\<rparr>"
    by (rule requestBatchDecryption_context)
  from assms(2) have "decryptionContexts (run E s1 ts1) rid = decryptionContexts s1 rid"
    by (rule context_run)
  moreover from assms(3) have "exec E provider t1 (SubmitMod B x) (run E s1 ts1) = Inr s2"
    by simp
  then have "decryptionContexts s2 rid = decryptionContexts (run E s1 ts1) rid"
    by (rule context_exec) simp_all
  moreover from assms(4) have "decryptionContexts ?s3 rid = decryptionContexts s2 rid"
    by (rule context_run)
  ultimately have ctx3: "decryptionContexts ?s3 rid = decryptionContexts s1 rid" by simp
  with ctx1 assms(5) have "onBatchDecryptionComplete E rid ct pf ?s3 = Inl InvalidState"
    by (simp add: onBatchDecryptionComplete_unfold)
  with ctx1 ctx3 show ?thesis by (simp add: transact_def)
qed

text \<open>
  For example, after the request 77 against the first batch the deployer's score 3 is
  accepted at time 200; the digest becomes 10 instead of 7 and the callback fails.
\<close>

theorem stale_callback_fails_witness:
  "requestBatchDecryption example_env 5 100 1 77 (initial example_env 5) = Inr requested_state
   \<and> submitMod example_env 5 200 1 3 requested_state
       = Inr (accepted example_env 5 200 1 3 requested_state)
   \<and> hashCiphertexts example_env
        [FHE_toBytes32 example_env
           (encryptedAggregate (batches (accepted example_env 5 200 1 3 requested_state) 1))]
       \<noteq> stateHash (decryptionContexts requested_state 77)
   \<and> onBatchDecryptionComplete example_env 77 cleartext_42 []
        (accepted example_env 5 200 1 3 requested_state) = Inl InvalidState"
proof -
  let ?s2 = "accepted example_env 5 200 1 3 requested_state"
  have a: "requestBatchDecryption example_env 5 100 1 77 (initial example_env 5)
      = Inr requested_state"
    by (simp add: requested_state_unfold requestBatchDecryption_unfold hashCiphertexts_def
        initial_def example_env_def)
  have b: "\<forall>t\<in>set []. \<not> requests 77 (tx_call t) \<and> \<not> completes 77 (tx_call t)" by simp
  have c: "submitMod example_env 5 200 1 3 (run example_env requested_state []) = Inr ?s2"
    by (simp add: requested_state_unfold submitMod_unfold initial_def example_env_def
        word_le_nat_alt)
  have d: "hashCiphertexts example_env
        [FHE_toBytes32 example_env (encryptedAggregate (batches (run example_env ?s2 []) 1))]
       \<noteq> stateHash (decryptionContexts requested_state 77)"
    by (simp add: requested_state_unfold accepted_def hashCiphertexts_def initial_def
        example_env_def)
  from stale_callback_fails [OF a b c b d, of cleartext_42 "[]"] a c d
  show ?thesis by simp
qed

text \<open>
  C5 (as amended). In every reachable state \<open>currentBatchId\<close> is at least 1, every active
  batch has an id between 1 and \<open>currentBatchId\<close>, and no batch outside that range has been
  written. Every transaction leaves \<open>currentBatchId\<close> as it is or advances it by exactly one
  (without wrapping), and in that case the batch of the new id is active and empty: ids are
  issued in strictly increasing order from 1 and never reused. This holds for every
  operation, \<open>openBatch\<close>, \<open>closeBatch\<close> and the rollover inside \<open>submitMod\<close> included.
  Nothing limits the number of active batches: \<open>openBatch\<close> does not close the batch that
  was current, and \<open>submitMod\<close> accepts any active id.
\<close>

theorem batch_ids_sequential:
  assumes "reachable E s"
  shows "1 \<le> currentBatchId s
    \<and> (\<forall>b. isActive (batches s b) \<longrightarrow> 1 \<le> b \<and> b \<le> currentBatchId s)
    \<and> (\<forall>b. b = 0 \<or> currentBatchId s < b \<longrightarrow> batches s b = default_Batch)
    \<and> (\<forall>t. currentBatchId (transact E s t) = currentBatchId s
          \<or> (currentBatchId (transact E s t) = currentBatchId s + 1
              \<and> currentBatchId s < currentBatchId s + 1
              \<and> batches (transact E s t) (currentBatchId s + 1)
                  = \<lparr>isActive = True, submissionCount = 0,
                     encryptedAggregate = FHE_asEuint32 E 0\<rparr>))"
proof -
  from assms have inv: "batch_inv s" by (rule reachable_batch_inv)
  have "1 \<le> b \<and> b \<le> currentBatchId s" if "isActive (batches s b)" for b
    using active_in_range [OF inv that] by (simp add: word_nonzero_ge_1)
  with batch_invD(1,2) [OF inv] currentBatchId_transact [of E s] show ?thesis
    by blast
qed

text \<open>
  For example, on the freshly deployed contract the first batch is active, and the
  deployer's \<open>openBatch\<close> advances the id from 1 to 2.
\<close>

theorem batch_ids_sequential_witness:
  "reachable example_env (initial example_env 5)
   \<and> currentBatchId (initial example_env 5) = 1
   \<and> isActive (batches (initial example_env 5) 1)
   \<and> currentBatchId
        (transact example_env (initial example_env 5)
           \<lparr>msg_sender = 5, block_timestamp = 40, tx_call = OpenBatch\<rparr>) = 2
   \<and> batches
        (transact example_env (initial example_env 5)
           \<lparr>msg_sender = 5, block_timestamp = 40, tx_call = OpenBatch\<rparr>) 2
       = \<lparr>isActive = True, submissionCount = 0, encryptedAggregate = 0\<rparr>"
proof -
  let ?s = "initial example_env 5"
  let ?t = "\<lparr>msg_sender = 5, block_timestamp = 40, tx_call = OpenBatch\<rparr>"
  have r: "reachable example_env ?s" by (rule reachable_initial)
  have c: "currentBatchId ?s = 1" and a: "isActive (batches ?s 1)"
    by (simp_all add: initial_def)
  have n: "currentBatchId (transact example_env ?s ?t) \<noteq> currentBatchId ?s"
    by (simp add: transact_def openBatch_unfold initial_def)
  have z: "FHE_asEuint32 example_env 0 = 0" by (simp add: example_env_def)
  from batch_ids_sequential [OF r] have
    "currentBatchId (transact example_env ?s ?t) = currentBatchId ?s
      \<or> (currentBatchId (transact example_env ?s ?t) = currentBatchId ?s + 1
          \<and> currentBatchId ?s < currentBatchId ?s + 1
          \<and> batches (transact example_env ?s ?t) (currentBatchId ?s + 1)
              = \<lparr>isActive = True, submissionCount = 0,
                 encryptedAggregate = FHE_asEuint32 example_env 0\<rparr>)"
    by blast
  with n c z have "currentBatchId (transact example_env ?s ?t) = 2
      \<and> batches (transact example_env ?s ?t) 2
          = \<lparr>isActive = True, submissionCount = 0, encryptedAggregate = 0\<rparr>"
    by simp
  with r c a show ?thesis by simp
qed

text \<open>
  C5 as stated fails after one \<open>openBatch\<close>: when the owner opens a second batch on the
  freshly deployed contract, batches 1 and 2 are both active in the state reached, and a
  provider's submission is accepted into either of them.
\<close>

theorem two_active_batches_counterexample:
  "reachable example_env two_active_state
   \<and> isActive (batches two_active_state 1)
   \<and> isActive (batches two_active_state 2)
   \<and> submitMod example_env 5 100 1 3 two_active_state
       = Inr (accepted example_env 5 100 1 3 two_active_state)
   \<and> submitMod example_env 5 100 2 3 two_active_state
       = Inr (accepted example_env 5 100 2 3 two_active_state)"
proof -
  have "reachable example_env two_active_state"
    unfolding two_active_state_def by (rule reachable_run) (rule reachable_initial)
  then show ?thesis
    by (simp add: two_active_state_unfold submitMod_unfold initial_def example_env_def
        word_le_nat_alt)
qed

text \<open>
  C6. Every operation is atomic: a transaction that fails at any step leaves the whole
  storage and the log as they were, whatever its earlier steps wrote. In particular, when a
  submission passes the role, pause, batch and cooldown checks, so that the cooldown
  modifier has written \<open>lastSubmissionAt[caller] = now\<close>, and the body then reverts because
  the ciphertext is uninitialized, \<open>lastSubmissionAt[caller]\<close> is still its old value after
  the transaction.
\<close>

theorem revert_discards_effects:
  "(exec E sender now c s = Inl e \<longrightarrow>
      transact E s \<lparr>msg_sender = sender, block_timestamp = now, tx_call = c\<rparr> = s)
   \<and> (isProvider s sender \<and> \<not> paused s \<and> isActive (batches s bid)
        \<and> rateLimited sender LastSubmissionAt now s = Inr s1
        \<and> \<not> FHE_isInitialized E x
      \<longrightarrow> lastSubmissionAt s1 sender = now
        \<and> submitMod E sender now bid x s = Inl (Error_string ''Uninitialized: encryptedScore'')
        \<and> transact E s \<lparr>msg_sender = sender, block_timestamp = now,
                          tx_call = SubmitMod bid x\<rparr> = s
        \<and> lastSubmissionAt
             (transact E s \<lparr>msg_sender = sender, block_timestamp = now,
                             tx_call = SubmitMod bid x\<rparr>) sender
           = lastSubmissionAt s sender)"
proof -
  have "lastSubmissionAt s1 sender = now
      \<and> submitMod E sender now bid x s = Inl (Error_string ''Uninitialized: encryptedScore'')"
    if "isProvider s sender" "\<not> paused s" "isActive (batches s bid)"
      "rateLimited sender LastSubmissionAt now s = Inr s1" "\<not> FHE_isInitialized E x"
    using that by (auto simp: rateLimited_unfold submitMod_unfold split: if_splits)
  then show ?thesis by (auto simp: transact_def)
qed

text \<open>
  For example, the deployer submits the all-zero handle at time 100: the cooldown check
  passes and stages the timestamp 100, the body reverts, and the stored timestamp is still 0.
\<close>

theorem revert_discards_effects_witness:
  "rateLimited 5 LastSubmissionAt 100 (initial example_env 5)
     = Inr ((initial example_env 5)\<lparr>lastSubmissionAt := (\<lambda>_. 0)(5 := 100)\<rparr>)
   \<and> \<not> FHE_isInitialized example_env 0
   \<and> exec example_env 5 100 (SubmitMod 1 0) (initial example_env 5)
       = Inl (Error_string ''Uninitialized: encryptedScore'')
   \<and> transact example_env (initial example_env 5)
        \<lparr>msg_sender = 5, block_timestamp = 100, tx_call = SubmitMod 1 0\<rparr>
       = initial example_env 5
   \<and> lastSubmissionAt
        (transact example_env (initial example_env 5)
           \<lparr>msg_sender = 5, block_timestamp = 100, tx_call = SubmitMod 1 0\<rparr>) 5 = 0"
proof -
  let ?s = "initial example_env 5"
  let ?s1 = "?s\<lparr>lastSubmissionAt := (\<lambda>_. 0)(5 := 100)\<rparr>"
  have a: "isProvider ?s 5 \<and> \<not> paused ?s \<and> isActive (batches ?s 1)"
    by (simp add: initial_def)
  have b: "rateLimited 5 LastSubmissionAt 100 ?s = Inr ?s1"
    by (simp add: rateLimited_unfold initial_def)
  have c: "\<not> FHE_isInitialized example_env 0" by (simp add: example_env_def)
  have d: "lastSubmissionAt ?s 5 = 0" by (simp add: initial_def)
  from revert_discards_effects [of example_env 5 100 "SubmitMod 1 0" ?s
      "Error_string ''Uninitialized: encryptedScore''" 1 ?s1 0] a b c d
  show ?thesis by simp
qed

text \<open>
  C7. The cooldown check is to fail with \<open>RateLimited\<close> unless
  \<open>now \<ge> lastAction[actor,kind] + cooldownSeconds\<close>, and to set \<open>lastAction[actor,kind]\<close> to
  \<open>now\<close> on success. The contract does so as long as the sum fits in 256 bits
  (\<open>rateLimited_math\<close>), and the example with a cooldown of 30 seconds holds
  (\<open>cooldown_example\<close>). It breaks the claim where the sum overflows: after the owner has
  set \<open>cooldownSeconds\<close> to \<open>2^256 - 1\<close>, the check of the deployer, whose last submission
  was at time 100, at time 200 reverts with the overflow panic, not with \<open>RateLimited\<close>,
  although 200 is below \<open>lastAction + cooldownSeconds\<close>; the same check of an actor who
  never submitted fails with \<open>RateLimited\<close>.
\<close>

theorem rateLimited_overflow_panics:
  "lastAction_get LastSubmissionAt overflow_state 5 = 100
   \<and> cooldownSeconds overflow_state = - 1
   \<and> rateLimited 5 LastSubmissionAt 200 overflow_state = Inl Panic_overflow
   \<and> lastAction_get LastSubmissionAt overflow_state 6 = 0
   \<and> rateLimited 6 LastSubmissionAt 200 overflow_state = Inl RateLimited"
  by (simp add: overflow_state_unfold rateLimited_unfold initial_def)



text \<open>
  C9. A submission whose ciphertext handle is not initialized fails: \<open>submitMod\<close> never
  replaces the handle by an encrypted zero. The transaction leaves the storage unchanged,
  so the aggregate and the submission count of the batch are what they were. When the four
  modifiers pass, the error is the revert string of \<open>_requireInitialized\<close>.
\<close>

theorem uninitialized_score_rejected:
  assumes "\<not> FHE_isInitialized E x"
  shows "(\<exists>e. submitMod E sender now bid x s = Inl e)
    \<and> transact E s \<lparr>msg_sender = sender, block_timestamp = now, tx_call = SubmitMod bid x\<rparr> = s
    \<and> encryptedAggregate
         (batches (transact E s \<lparr>msg_sender = sender, block_timestamp = now,
                                  tx_call = SubmitMod bid x\<rparr>) bid)
       = encryptedAggregate (batches s bid)
    \<and> submissionCount
         (batches (transact E s \<lparr>msg_sender = sender, block_timestamp = now,
                                  tx_call = SubmitMod bid x\<rparr>) bid)
       = submissionCount (batches s bid)
    \<and> (isProvider s sender \<and> \<not> paused s \<and> isActive (batches s bid)
         \<and> rateLimited sender LastSubmissionAt now s \<noteq> Inl Panic_overflow
         \<and> rateLimited sender LastSubmissionAt now s \<noteq> Inl RateLimited
       \<longrightarrow> submitMod E sender now bid x s
             = Inl (Error_string ''Uninitialized: encryptedScore''))"
proof -
  from assms have fails: "\<exists>e. submitMod E sender now bid x s = Inl e"
    by (simp add: submitMod_unfold)
  then have "transact E s \<lparr>msg_sender = sender, block_timestamp = now,
      tx_call = SubmitMod bid x\<rparr> = s"
    by (auto simp: transact_def)
  moreover from assms have "submitMod E sender now bid x s
      = Inl (Error_string ''Uninitialized: encryptedScore'')"
    if "isProvider s sender" "\<not> paused s" "isActive (batches s bid)"
      "rateLimited sender LastSubmissionAt now s \<noteq> Inl Panic_overflow"
      "rateLimited sender LastSubmissionAt now s \<noteq> Inl RateLimited"
    using that by (simp add: submitMod_unfold rateLimited_unfold split: if_splits)
  ultimately show ?thesis using fails by simp
qed

text \<open>
  For example, the deployer submits the all-zero handle, which the example library reports
  as uninitialized, into the first batch at time 100.
\<close>

theorem uninitialized_score_rejected_witness:
  "\<not> FHE_isInitialized example_env 0
   \<and> submitMod example_env 5 100 1 0 (initial example_env 5)
       = Inl (Error_string ''Uninitialized: encryptedScore'')
   \<and> submissionCount
        (batches (transact example_env (initial example_env 5)
           \<lparr>msg_sender = 5, block_timestamp = 100, tx_call = SubmitMod 1 0\<rparr>) 1) = 0"
proof -
  let ?s = "initial example_env 5"
  have a: "\<not> FHE_isInitialized example_env 0" by (simp add: example_env_def)
  have b: "isProvider ?s 5 \<and> \<not> paused ?s \<and> isActive (batches ?s 1)
      \<and> rateLimited 5 LastSubmissionAt 100 ?s \<noteq> Inl Panic_overflow
      \<and> rateLimited 5 LastSubmissionAt 100 ?s \<noteq> Inl RateLimited"
    by (simp add: rateLimited_unfold initial_def)
  have c: "submissionCount (batches ?s 1) = 0" by (simp add: initial_def)
  from uninitialized_score_rejected [OF a, of 5 100 1 ?s] b c
  show ?thesis using a by simp
qed

text \<open>
  C10. Take a request id under which no decryption request was ever created: the contract
  was deployed, and none of the transactions since was a request that the oracle answered
  with this id. The stored context is then the all-zero one, so the callback for this id
  is not rejected as a replay; it compares the digest of the aggregate of batch 0, which
  was never written, with the stored all-zero digest, and whenever the two differ it fails
  with \<open>InvalidState\<close>, the same error as for a stale request, leaving the storage unchanged.
\<close>

theorem unknown_request_fails_with_InvalidState:
  assumes "constructor E deployer = Inr s0"
    and "\<forall>t\<in>set ts. \<not> requests rid (tx_call t)"
    and "hashCiphertexts E [FHE_toBytes32 E (encryptedAggregate default_Batch)]
           \<noteq> stateHash default_DecryptionContext"
  shows "decryptionContexts (run E s0 ts) rid = default_DecryptionContext
    \<and> \<not> processed (decryptionContexts (run E s0 ts) rid)
    \<and> batches (run E s0 ts) (batchId (decryptionContexts (run E s0 ts) rid)) = default_Batch
    \<and> onBatchDecryptionComplete E rid ct pf (run E s0 ts) = Inl InvalidState
    \<and> onBatchDecryptionComplete E rid ct pf (run E s0 ts) \<noteq> Inl ReplayAttempt
    \<and> transact E (run E s0 ts)
         \<lparr>msg_sender = sender, block_timestamp = now,
          tx_call = OnBatchDecryptionComplete rid ct pf\<rparr> = run E s0 ts"
proof -
  let ?s = "run E s0 ts"
  from assms(1) have s0: "s0 = initial E deployer" by (simp add: constructor_unfold)
  then have inv0: "batch_inv s0" by (simp add: batch_inv_initial)
  from s0 have "decryptionContexts s0 rid = default_DecryptionContext"
    by (simp add: initial_def)
  with inv0 assms(3) have ctx: "decryptionContexts ?s rid = default_DecryptionContext"
    using assms(2) by (rule default_context_run)
  from inv0 have "batch_inv ?s" by (rule batch_inv_run)
  then have b0: "batches ?s 0 = default_Batch" by (simp add: batch_invD(2))
  from ctx b0 assms(3) have "onBatchDecryptionComplete E rid ct pf ?s = Inl InvalidState"
    by (simp add: onBatchDecryptionComplete_unfold default_DecryptionContext_def)
  with ctx b0 show ?thesis by (simp add: transact_def default_DecryptionContext_def)
qed

text \<open>
  For example, after the request 77 the callback for the id 78, which was never handed
  out, fails with \<open>InvalidState\<close>: the digest of the all-zero handle is 7, not 0.
\<close>

theorem unknown_request_fails_with_InvalidState_witness:
  "constructor example_env 5 = Inr (initial example_env 5)
   \<and> hashCiphertexts example_env
        [FHE_toBytes32 example_env (encryptedAggregate default_Batch)]
       \<noteq> stateHash default_DecryptionContext
   \<and> onBatchDecryptionComplete example_env 78 cleartext_42 [] requested_state
       = Inl InvalidState"
proof -
  let ?ts = "[\<lparr>msg_sender = 5, block_timestamp = 100,
               tx_call = RequestBatchDecryption 1 77\<rparr>]"
  have a: "constructor example_env 5 = Inr (initial example_env 5)"
    by (rule constructor_unfold)
  have b: "\<forall>t\<in>set ?ts. \<not> requests 78 (tx_call t)" by simp
  have c: "hashCiphertexts example_env
        [FHE_toBytes32 example_env (encryptedAggregate default_Batch)]
       \<noteq> stateHash default_DecryptionContext"
    by (simp add: hashCiphertexts_def default_Batch_def default_DecryptionContext_def
        example_env_def)
  from unknown_request_fails_with_InvalidState [OF a b c, of cleartext_42 "[]"] a c
  show ?thesis by (simp add: requested_state_def)
qed

end
